theory Spec2Isabelle
  imports Main
begin

section \<open>Strings\<close>

text \<open>
  A JavaScript string is a sequence of UTF-16 code units. The model is \<open>string\<close>,
  a list of 8-bit characters, read as the code units U+0000 to U+00FF (Latin-1): on
  these strings every operation below computes what the engine computes. Strings
  with code units above U+00FF are outside the model.
\<close>

definition code_unit :: "char \<Rightarrow> nat" where
  "code_unit c = of_char c"

text \<open>
  \<open>String.prototype.trim\<close> removes white space and line terminators at both ends.
  Below U+0100 these are TAB, LF, VT, FF, CR, SP and NBSP.
\<close>

definition is_space :: "char \<Rightarrow> bool" where
  "is_space c = (code_unit c \<in> {9, 10, 11, 12, 13, 32, 160})"

definition trim_start :: "string \<Rightarrow> string" where
  "trim_start s = dropWhile is_space s"

definition trim :: "string \<Rightarrow> string" where
  "trim s = rev (dropWhile is_space (rev (dropWhile is_space s)))"

text \<open>
  \<open>String.prototype.toLowerCase\<close>: below U+0100 the upper-case letters are A to Z
  and U+00C0 to U+00DE without the multiplication sign U+00D7; each maps to the code
  unit 32 above it, and every other code unit maps to itself.
\<close>

definition lower_char :: "char \<Rightarrow> char" where
  "lower_char c =
     (let n = code_unit c in
      if (65 \<le> n \<and> n \<le> 90) \<or> (192 \<le> n \<and> n \<le> 222 \<and> n \<noteq> 215)
      then char_of (n + 32) else c)"

definition toLowerCase :: "string \<Rightarrow> string" where
  "toLowerCase s = map lower_char s"

text \<open>\<open>String.prototype.startsWith\<close> and \<open>String.prototype.includes\<close>.\<close>

fun startsWith :: "string \<Rightarrow> string \<Rightarrow> bool" where
  "startsWith s [] = True"
| "startsWith [] (b # bs) = False"
| "startsWith (c # cs) (b # bs) = (c = b \<and> startsWith cs bs)"

fun str_includes :: "string \<Rightarrow> string \<Rightarrow> bool" where
  "str_includes [] bad = (bad = [])"
| "str_includes (c # cs) bad = (startsWith (c # cs) bad \<or> str_includes cs bad)"

text \<open>Decimal digits of a natural number, as \<open>String(n)\<close> prints an integer.\<close>

definition digit_char :: "nat \<Rightarrow> char" where
  "digit_char d = char_of (48 + d)"

fun show_nat :: "nat \<Rightarrow> string" where
  "show_nat n = (if n < 10 then [digit_char n] else show_nat (n div 10) @ [digit_char (n mod 10)])"

declare show_nat.simps [simp del]

definition show_int :: "int \<Rightarrow> string" where
  "show_int i = (if i < 0 then CHR ''-'' # show_nat (nat (- i)) else show_nat (nat i))"

section \<open>JavaScript values\<close>

text \<open>
  The values \<open>JSON.parse\<close> can produce, and \<open>undefined\<close>. An object holds its own
  properties in creation order, each key once. A JSON number is modelled by an integer
  (page ids and pixel sizes are integers); fractions and magnitudes beyond the safe
  integer range are outside the model.
\<close>

datatype jsval =
    JUndefined
  | JNull
  | JBool bool
  | JNum int
  | JStr string
  | JArr "jsval list"
  | JObj "(string \<times> jsval) list"

text \<open>
  The errors the program can raise: \<open>Error\<close> is constructed by the program itself,
  \<open>TypeError\<close> by the engine, \<open>FetchError\<close> by the HTTP client (a failed request or a
  body that is not JSON). Each carries its message.
\<close>

datatype error = Error string | TypeError string | FetchError string

fun message :: "error \<Rightarrow> string" where
  "message (Error m) = m"
| "message (TypeError m) = m"
| "message (FetchError m) = m"

fun truthy :: "jsval \<Rightarrow> bool" where
  "truthy JUndefined = False"
| "truthy JNull = False"
| "truthy (JBool b) = b"
| "truthy (JNum n) = (n \<noteq> 0)"
| "truthy (JStr s) = (s \<noteq> [])"
| "truthy (JArr xs) = True"
| "truthy (JObj kvs) = True"

text \<open>The operator \<open>a || b\<close> on values whose evaluation has no effect.\<close>

definition js_or :: "jsval \<Rightarrow> jsval \<Rightarrow> jsval" where
  "js_or a b = (if truthy a then a else b)"

fun nullish :: "jsval \<Rightarrow> bool" where
  "nullish JUndefined = True"
| "nullish JNull = True"
| "nullish v = False"

text \<open>
  Reading property \<open>k\<close> of a value that is neither \<open>null\<close> nor \<open>undefined\<close>, for a
  name \<open>k\<close> that no built-in prototype defines and that is not an index. Every
  property name the program reads is such a name, so only an object's own properties
  can answer.
\<close>

fun get :: "jsval \<Rightarrow> string \<Rightarrow> jsval" where
  "get (JObj kvs) k = (case map_of kvs k of None \<Rightarrow> JUndefined | Some v \<Rightarrow> v)"
| "get v k = JUndefined"

definition cannot_read :: "jsval \<Rightarrow> string \<Rightarrow> error" where
  "cannot_read v k =
     TypeError (''Cannot read properties of '' @ (if v = JNull then ''null'' else ''undefined'')
                @ '' (reading '' @ [char_of (39::nat)] @ k @ [char_of (39::nat)] @ '')'')"

text \<open>\<open>v.k\<close> raises on \<open>null\<close> and \<open>undefined\<close>; \<open>v?.k\<close> gives \<open>undefined\<close> there.\<close>

definition member_of :: "jsval \<Rightarrow> string \<Rightarrow> error + jsval" where
  "member_of v k = (if nullish v then Inl (cannot_read v k) else Inr (get v k))"

definition opt_member :: "jsval \<Rightarrow> string \<Rightarrow> jsval" where
  "opt_member v k = (if nullish v then JUndefined else get v k)"

text \<open>
  \<open>ToString\<close>, as string concatenation and template literals apply it. An array
  prints its elements joined by commas, \<open>null\<close> and \<open>undefined\<close> elements as empty
  strings. An object prints as \<open>[object Object]\<close> through \<open>Object.prototype.toString\<close>,
  unless it has an own property \<open>toString\<close>: a JSON value is never callable, so the
  conversion finds no method that returns a primitive and raises a TypeError.
\<close>

fun join_comma :: "string list \<Rightarrow> string" where
  "join_comma [] = []"
| "join_comma [x] = x"
| "join_comma (x # y # r) = x @ '','' @ join_comma (y # r)"

fun collect :: "(error + 'a) list \<Rightarrow> error + 'a list" where
  "collect [] = Inr []"
| "collect (Inl e # r) = Inl e"
| "collect (Inr x # r) = (case collect r of Inl e \<Rightarrow> Inl e | Inr xs \<Rightarrow> Inr (x # xs))"

fun to_string :: "jsval \<Rightarrow> error + string" where
  "to_string JUndefined = Inr ''undefined''"
| "to_string JNull = Inr ''null''"
| "to_string (JBool b) = Inr (if b then ''true'' else ''false'')"
| "to_string (JNum n) = Inr (show_int n)"
| "to_string (JStr s) = Inr s"
| "to_string (JArr xs) =
     (case collect (map (\<lambda>x. if nullish x then Inr [] else to_string x) xs) of
        Inl e \<Rightarrow> Inl e
      | Inr ss \<Rightarrow> Inr (join_comma ss))"
| "to_string (JObj kvs) =
     (if ''toString'' \<in> set (map fst kvs)
      then Inl (TypeError ''Cannot convert object to primitive value'')
      else Inr ''[object Object]'')"

text \<open>
  \<open>Object.values\<close> lists the own enumerable properties in the engine's property order
  (OrdinaryOwnPropertyKeys): first the keys that are array indices, in ascending numeric
  order, then the other string keys in creation order. An array index is the canonical
  decimal form of an integer from 0 to \<open>2^32 - 2\<close>. An array lists its elements, a
  string its characters, a number or boolean nothing.
\<close>

definition is_digit :: "char \<Rightarrow> bool" where
  "is_digit c = (48 \<le> code_unit c \<and> code_unit c \<le> 57)"

definition digits_value :: "string \<Rightarrow> nat" where
  "digits_value s = foldl (\<lambda>a c. 10 * a + (code_unit c - 48)) 0 s"

definition is_array_index :: "string \<Rightarrow> bool" where
  "is_array_index s =
     (case s of
        [] \<Rightarrow> False
      | c # cs \<Rightarrow> list_all is_digit s \<and> (cs = [] \<or> c \<noteq> CHR ''0'')
                  \<and> digits_value s < 2 ^ 32 - 1)"

definition own_property_order :: "(string \<times> 'a) list \<Rightarrow> (string \<times> 'a) list" where
  "own_property_order kvs =
     sort_key (\<lambda>kv. digits_value (fst kv)) (filter (\<lambda>kv. is_array_index (fst kv)) kvs)
     @ filter (\<lambda>kv. \<not> is_array_index (fst kv)) kvs"

fun Object_values :: "jsval \<Rightarrow> error + jsval list" where
  "Object_values (JObj kvs) = Inr (map snd (own_property_order kvs))"
| "Object_values (JArr xs) = Inr xs"
| "Object_values (JStr s) = Inr (map (\<lambda>c. JStr [c]) s)"
| "Object_values (JNum n) = Inr []"
| "Object_values (JBool b) = Inr []"
| "Object_values v = Inl (TypeError ''Cannot convert undefined or null to object'')"

section \<open>Numbers of the request\<close>

text \<open>
  The numbers \<open>parseInt\<close> and the arithmetic on its results produce are doubles without
  a fraction: \<open>NaN\<close>, an integer that a double holds, or an infinity. \<open>Fin 0\<close> stands for
  both zeros; the program never tells them apart (\<open>String\<close> prints both as \<open>0\<close>, and
  \<open>Math.max(0, -0)\<close> is \<open>0\<close>).
\<close>

datatype jsnum = NaN | Fin int | PosInf | NegInf

text \<open>
  The double nearest to an integer, ties to the even significand. Below \<open>2^53\<close> every
  integer is a double. From there on a double has 53 significant bits: with \<open>q\<close> the
  weight of the last of them, the integer is rounded to a multiple of \<open>q\<close>, and a
  result of \<open>2^1024\<close> or more is an infinity.
\<close>

fun bit_length :: "nat \<Rightarrow> nat" where
  "bit_length n = (if n = 0 then 0 else Suc (bit_length (n div 2)))"

declare bit_length.simps [simp del]

definition round_magnitude :: "nat \<Rightarrow> nat option" where
  "round_magnitude a =
     (if a < 9007199254740992 then Some a
      else
        let q = 2 ^ (bit_length a - 53);
            m = a div q;
            r = a mod q;
            m' = (if q < 2 * r \<or> (2 * r = q \<and> odd m) then m + 1 else m)
        in if 2 ^ 1024 \<le> m' * q then None else Some (m' * q))"

definition round_to_double :: "int \<Rightarrow> jsnum" where
  "round_to_double n =
     (case round_magnitude (nat \<bar>n\<bar>) of
        None \<Rightarrow> if n < 0 then NegInf else PosInf
      | Some v \<Rightarrow> Fin (if n < 0 then - int v else int v))"

text \<open>\<open>Math.max\<close> and \<open>Math.min\<close> of two numbers: \<open>NaN\<close> if either is.\<close>

fun Math_max :: "jsnum \<Rightarrow> jsnum \<Rightarrow> jsnum" where
  "Math_max NaN b = NaN"
| "Math_max a NaN = NaN"
| "Math_max PosInf b = PosInf"
| "Math_max a PosInf = PosInf"
| "Math_max NegInf b = b"
| "Math_max a NegInf = a"
| "Math_max (Fin a) (Fin b) = Fin (max a b)"

fun Math_min :: "jsnum \<Rightarrow> jsnum \<Rightarrow> jsnum" where
  "Math_min NaN b = NaN"
| "Math_min a NaN = NaN"
| "Math_min NegInf b = NegInf"
| "Math_min a NegInf = NegInf"
| "Math_min PosInf b = b"
| "Math_min a PosInf = a"
| "Math_min (Fin a) (Fin b) = Fin (min a b)"

text \<open>
  The operators \<open>-\<close> and \<open>*\<close> on numbers: the exact result, rounded to a double. An
  infinity less itself and an infinity times zero are \<open>NaN\<close>.
\<close>

fun num_minus :: "jsnum \<Rightarrow> jsnum \<Rightarrow> jsnum" where
  "num_minus NaN b = NaN"
| "num_minus a NaN = NaN"
| "num_minus (Fin a) (Fin b) = round_to_double (a - b)"
| "num_minus (Fin a) PosInf = NegInf"
| "num_minus (Fin a) NegInf = PosInf"
| "num_minus PosInf PosInf = NaN"
| "num_minus PosInf b = PosInf"
| "num_minus NegInf NegInf = NaN"
| "num_minus NegInf b = NegInf"

fun num_times :: "jsnum \<Rightarrow> jsnum \<Rightarrow> jsnum" where
  "num_times NaN b = NaN"
| "num_times a NaN = NaN"
| "num_times (Fin a) (Fin b) = round_to_double (a * b)"
| "num_times (Fin a) PosInf = (if a = 0 then NaN else if 0 < a then PosInf else NegInf)"
| "num_times (Fin a) NegInf = (if a = 0 then NaN else if 0 < a then NegInf else PosInf)"
| "num_times PosInf (Fin b) = (if b = 0 then NaN else if 0 < b then PosInf else NegInf)"
| "num_times NegInf (Fin b) = (if b = 0 then NaN else if 0 < b then NegInf else PosInf)"
| "num_times PosInf PosInf = PosInf"
| "num_times PosInf NegInf = NegInf"
| "num_times NegInf PosInf = NegInf"
| "num_times NegInf NegInf = PosInf"

text \<open>A number that is neither \<open>NaN\<close> nor below zero.\<close>

fun not_negative :: "jsnum \<Rightarrow> bool" where
  "not_negative (Fin n) = (0 \<le> n)"
| "not_negative PosInf = True"
| "not_negative v = False"

text \<open>
  \<open>String(x)\<close> for a number (Number::toString): an integer below \<open>2^53\<close> prints its
  digits. A larger double \<open>a\<close> prints the shortest decimal that reads back as \<open>a\<close>:
  with the fewest digits \<open>k\<close>, the \<open>k\<close>-digit \<open>s\<close> and the length \<open>n\<close> for which
  \<open>s * 10^(n - k)\<close> rounds to \<open>a\<close>, the nearest such \<open>s\<close> (the even one of two), printed
  as \<open>s\<close> and \<open>n - k\<close> zeros up to \<open>n = 21\<close> and in exponent form beyond. Seventeen
  digits always suffice for a double.
\<close>

definition shortest_candidates :: "nat \<Rightarrow> nat \<Rightarrow> (nat \<times> nat \<times> nat) list" where
  "shortest_candidates a k =
     [(if a \<le> s * 10 ^ (n - k) then s * 10 ^ (n - k) - a else a - s * 10 ^ (n - k), s, n).
        n \<leftarrow> [length (show_nat a), length (show_nat a) + 1], k \<le> n,
        s \<leftarrow> [a div 10 ^ (n - k), a div 10 ^ (n - k) + 1],
        10 ^ (k - 1) \<le> s, s < 10 ^ k,
        round_magnitude (s * 10 ^ (n - k)) = Some a]"

fun closest :: "(nat \<times> nat \<times> nat) list \<Rightarrow> (nat \<times> nat \<times> nat) option" where
  "closest [] = None"
| "closest (c # cs) =
     (case closest cs of
        None \<Rightarrow> Some c
      | Some b \<Rightarrow>
          if fst c < fst b \<or> (fst c = fst b \<and> even (fst (snd c))) then Some c else Some b)"

definition shortest_digits :: "nat \<Rightarrow> (nat \<times> nat) option" where
  "shortest_digits a =
     (case filter (\<lambda>k. shortest_candidates a k \<noteq> []) [1..<18] of
        [] \<Rightarrow> None
      | k # ks \<Rightarrow> map_option snd (closest (shortest_candidates a k)))"

definition show_double :: "nat \<Rightarrow> string" where
  "show_double a =
     (if a < 9007199254740992 then show_nat a
      else case shortest_digits a of
        None \<Rightarrow> show_nat a
      | Some (s, n) \<Rightarrow>
          let ds = show_nat s in
          if n \<le> 21 then ds @ replicate (n - length ds) (CHR ''0'')
          else if length ds = 1 then ds @ ''e+'' @ show_nat (n - 1)
          else hd ds # CHR ''.'' # tl ds @ ''e+'' @ show_nat (n - 1))"

fun String_of_num :: "jsnum \<Rightarrow> string" where
  "String_of_num NaN = ''NaN''"
| "String_of_num PosInf = ''Infinity''"
| "String_of_num NegInf = ''-Infinity''"
| "String_of_num (Fin n) =
     (if n < 0 then CHR ''-'' # show_double (nat (- n)) else show_double (nat n))"

text \<open>
  \<open>parseInt(s)\<close> with no radix: leading white space is skipped, then an optional sign,
  then \<open>0x\<close> or \<open>0X\<close> selects radix 16 (otherwise 10); the longest run of digits of the
  radix is the value, and with no digit the result is \<open>NaN\<close>. The value is the double
  nearest to the integer the digits write, as the engine computes it (the language
  standard lets an implementation approximate from the 21st decimal digit on).
\<close>

definition radix_digit :: "char \<Rightarrow> nat" where
  "radix_digit c =
     (let n = code_unit c in
      if 48 \<le> n \<and> n \<le> 57 then n - 48
      else if 97 \<le> n \<and> n \<le> 122 then n - 87
      else if 65 \<le> n \<and> n \<le> 90 then n - 55
      else 36)"

definition radix_value :: "nat \<Rightarrow> string \<Rightarrow> nat" where
  "radix_value r s = foldl (\<lambda>a c. r * a + radix_digit c) 0 s"

definition strip_sign :: "string \<Rightarrow> int \<times> string" where
  "strip_sign s =
     (case s of
        [] \<Rightarrow> (1, s)
      | c # r \<Rightarrow> if c = CHR ''-'' then (- 1, r) else if c = CHR ''+'' then (1, r) else (1, s))"

definition strip_radix :: "string \<Rightarrow> nat \<times> string" where
  "strip_radix s =
     (case s of
        c # x # r \<Rightarrow> if c = CHR ''0'' \<and> (x = CHR ''x'' \<or> x = CHR ''X'') then (16, r) else (10, s)
      | _ \<Rightarrow> (10, s))"

definition parseInt :: "string \<Rightarrow> jsnum" where
  "parseInt s =
     (let (sign, s2) = strip_sign (trim_start s);
          (radix, s3) = strip_radix s2;
          ds = takeWhile (\<lambda>c. radix_digit c < radix) s3
      in if ds = [] then NaN else round_to_double (sign * int (radix_value radix ds)))"

section \<open>Percent-encoding\<close>

text \<open>
  \<open>encodeURIComponent\<close> keeps letters, digits and \<open>- _ . ! ~ * ' ( )\<close> and writes every
  other character as the bytes of its UTF-8 form, each as \<open>%XX\<close>. \<open>URLSearchParams\<close>
  serialises with the form-urlencoded rules: letters, digits and \<open>* - . _\<close> are kept, a
  space becomes \<open>+\<close>, everything else is percent-encoded.
\<close>

definition hex_digit :: "nat \<Rightarrow> char" where
  "hex_digit n = ''0123456789ABCDEF'' ! n"

definition percent_byte :: "nat \<Rightarrow> string" where
  "percent_byte b = [CHR ''%'', hex_digit (b div 16), hex_digit (b mod 16)]"

definition utf8_bytes :: "char \<Rightarrow> nat list" where
  "utf8_bytes c =
     (let n = code_unit c in if n < 128 then [n] else [192 + n div 64, 128 + n mod 64])"

definition is_alnum :: "char \<Rightarrow> bool" where
  "is_alnum c =
     (let n = code_unit c in
      (48 \<le> n \<and> n \<le> 57) \<or> (65 \<le> n \<and> n \<le> 90) \<or> (97 \<le> n \<and> n \<le> 122))"

definition percent_encode :: "char \<Rightarrow> string" where
  "percent_encode c = concat (map percent_byte (utf8_bytes c))"

definition encodeURIComponent :: "string \<Rightarrow> string" where
  "encodeURIComponent s =
     concat (map (\<lambda>c. if is_alnum c \<or> c \<in> set ''-_.!~*()'' \<or> code_unit c = 39
                       then [c] else percent_encode c) s)"

definition form_encode :: "string \<Rightarrow> string" where
  "form_encode s =
     concat (map (\<lambda>c. if is_alnum c \<or> c \<in> set ''*-._'' then [c]
                       else if c = CHR '' '' then ''+'' else percent_encode c) s)"

fun URLSearchParams_toString :: "(string \<times> string) list \<Rightarrow> string" where
  "URLSearchParams_toString [] = []"
| "URLSearchParams_toString [(k, v)] = form_encode k @ ''='' @ form_encode v"
| "URLSearchParams_toString ((k, v) # kv # r) =
     form_encode k @ ''='' @ form_encode v @ ''&'' @ URLSearchParams_toString (kv # r)"

section \<open>The safe filter\<close>

text \<open>The result record that \<open>searchWikimedia\<close> builds for each page (lines 93 to 102).\<close>

record normalized_result =
  id' :: jsval
  title :: jsval
  thumbnail :: jsval
  contentUrl :: jsval
  hostPage :: jsval
  width :: jsval
  height :: jsval
  description :: string

definition BLACKLIST :: "string list" where
  "BLACKLIST = [''porn'', ''nsfw'', ''nude'', ''sex'', ''erotic'', ''explicit'',
                ''scantily'', ''topless'', ''bdsm'']"

text \<open>
  Line 53: \<open>(item.title || "") + " " + (item.description || "")\<close>. The title is whatever
  the upstream record held, so the concatenation converts it with \<open>ToString\<close>; the
  description is always a string.
\<close>

definition filter_text :: "normalized_result \<Rightarrow> error + string" where
  "filter_text item =
     (case to_string (js_or (title item) (JStr [])) of
        Inl e \<Rightarrow> Inl e
      | Inr t \<Rightarrow> Inr (t @ '' '' @ description item))"

text \<open>The loop of lines 55 to 58 over the blacklist.\<close>

fun scan_blacklist :: "string \<Rightarrow> string list \<Rightarrow> bool" where
  "scan_blacklist lower [] = True"
| "scan_blacklist lower (bad # rest) =
     (if str_includes lower bad then False else scan_blacklist lower rest)"

text \<open>
  \<open>passesSafeFilter(item, mode = "Strict")\<close>: the item is \<open>None\<close> for a \<open>null\<close> or
  \<open>undefined\<close> argument, the mode is \<open>None\<close> when the argument is left out, so that the
  default applies.
\<close>

definition passesSafeFilter :: "normalized_result option \<Rightarrow> string option \<Rightarrow> error + bool" where
  "passesSafeFilter item mode_arg =
     (let mode = (case mode_arg of None \<Rightarrow> ''Strict'' | Some m \<Rightarrow> m) in
      case item of
        None \<Rightarrow> Inr False
      | Some it \<Rightarrow>
          if mode \<noteq> ''Strict'' then Inr True
          else (case filter_text it of
                  Inl e \<Rightarrow> Inl e
                | Inr t \<Rightarrow> Inr (scan_blacklist (toLowerCase t) BLACKLIST)))"

section \<open>The upstream query\<close>

text \<open>
  Line 64: \<open>Math.max(0, (page - 1) * per_page)\<close>. Lines 66 to 81: the parameters in
  the order the source lists them, and the URL they are serialised into.
\<close>

definition sroffset :: "jsnum \<Rightarrow> jsnum \<Rightarrow> jsnum" where
  "sroffset page per_page = Math_max (Fin 0) (num_times (num_minus page (Fin 1)) per_page)"

definition search_params :: "string \<Rightarrow> jsnum \<Rightarrow> jsnum \<Rightarrow> (string \<times> string) list" where
  "search_params query page per_page =
     [(''action'', ''query''),
      (''format'', ''json''),
      (''generator'', ''search''),
      (''gsrsearch'', query),
      (''gsrlimit'', String_of_num per_page),
      (''gsroffset'', String_of_num (sroffset page per_page)),
      (''prop'', ''imageinfo|pageimages|info''),
      (''iiprop'', ''url|mime|size|extmetadata''),
      (''piprop'', ''thumbnail''),
      (''pithumbsize'', ''640''),
      (''inprop'', ''url''),
      (''origin'', ''*'')]"

definition search_url :: "string \<Rightarrow> jsnum \<Rightarrow> jsnum \<Rightarrow> string" where
  "search_url query page per_page =
     ''https://commons.wikimedia.org/w/api.php?''
     @ URLSearchParams_toString (search_params query page per_page)"

section \<open>The normalizer\<close>

text \<open>
  \<open>desc.replace(/<[^>]+>/g, '')\<close>: scanning from the left, a \<open><\<close> followed by at least
  one character other than \<open>>\<close> and then a \<open>>\<close> is removed up to that \<open>>\<close>, and the
  scan goes on behind it; any other character is kept.
\<close>

function strip_tags :: "string \<Rightarrow> string" where
  "strip_tags [] = []"
| "strip_tags (c # cs) =
     (if c = CHR ''<'' \<and> takeWhile (\<lambda>d. d \<noteq> CHR ''>'') cs \<noteq> []
         \<and> dropWhile (\<lambda>d. d \<noteq> CHR ''>'') cs \<noteq> []
      then strip_tags (tl (dropWhile (\<lambda>d. d \<noteq> CHR ''>'') cs))
      else c # strip_tags cs)"
  by pat_completeness auto
termination
proof (relation "measure length")
  show "wf (measure length)" by simp
next
  fix c :: char and cs :: string
  have "length (dropWhile (\<lambda>d. d \<noteq> CHR ''>'') cs) \<le> length cs"
    by (rule length_dropWhile_le)
  then show "(tl (dropWhile (\<lambda>d. d \<noteq> CHR ''>'') cs), c # cs) \<in> measure length"
    by simp
next
  fix c :: char and cs :: string
  show "(cs, c # cs) \<in> measure length" by simp
qed

text \<open>The arrow function of lines 87 to 103, applied to one page record \<open>p\<close>.\<close>

definition first_imageinfo :: "jsval \<Rightarrow> jsval" where
  "first_imageinfo p =
     (case get p ''imageinfo'' of
        JArr xs \<Rightarrow> (case xs of [] \<Rightarrow> JUndefined | x # r \<Rightarrow> x)
      | _ \<Rightarrow> JNull)"

definition page_thumbnail :: "jsval \<Rightarrow> jsval \<Rightarrow> jsval" where
  "page_thumbnail p ii =
     js_or (js_or (opt_member (get p ''thumbnail'') ''source'')
                  (if truthy ii then get ii ''thumburl'' else JNull))
           JNull"

definition page_desc :: "jsval \<Rightarrow> jsval \<Rightarrow> jsval" where
  "page_desc p ii =
     js_or (js_or (opt_member (opt_member (opt_member ii ''extmetadata'') ''ImageDescription'')
                              ''value'')
                  (get p ''extract''))
           (JStr [])"

definition clean_description :: "jsval \<Rightarrow> string" where
  "clean_description desc = (case desc of JStr s \<Rightarrow> trim (strip_tags s) | _ \<Rightarrow> [])"

definition page_hostPage :: "jsval \<Rightarrow> error + jsval" where
  "page_hostPage p =
     (if truthy (get p ''fullurl'') then Inr (get p ''fullurl'')
      else (case to_string (get p ''title'') of
              Inl e \<Rightarrow> Inl e
            | Inr t \<Rightarrow> Inr (JStr (''https://commons.wikimedia.org/wiki/'' @ encodeURIComponent t))))"

definition normalize_page :: "jsval \<Rightarrow> error + normalized_result" where
  "normalize_page p =
     (if nullish p then Inl (cannot_read p ''imageinfo'')
      else
        let ii = first_imageinfo p;
            thumbnail = page_thumbnail p ii;
            contentUrl = js_or (opt_member ii ''url'') JNull;
            desc = page_desc p ii
        in case page_hostPage p of
             Inl e \<Rightarrow> Inl e
           | Inr host \<Rightarrow>
               Inr \<lparr> id' = get p ''pageid'',
                     title = get p ''title'',
                     thumbnail = thumbnail,
                     contentUrl = contentUrl,
                     hostPage = host,
                     width = js_or (opt_member ii ''width'') JNull,
                     height = js_or (opt_member ii ''height'') JNull,
                     description = clean_description desc \<rparr>)"

text \<open>\<open>Array.prototype.map\<close> with a callback that may raise: the first error ends it.\<close>

fun map_results :: "('a \<Rightarrow> error + 'b) \<Rightarrow> 'a list \<Rightarrow> error + 'b list" where
  "map_results f [] = Inr []"
| "map_results f (x # xs) =
     (case f x of
        Inl e \<Rightarrow> Inl e
      | Inr y \<Rightarrow> (case map_results f xs of Inl e \<Rightarrow> Inl e | Inr ys \<Rightarrow> Inr (y # ys)))"

text \<open>Line 86: \<open>json.query?.pages || {}\<close>.\<close>

definition pages_of :: "jsval \<Rightarrow> error + jsval" where
  "pages_of json =
     (case member_of json ''query'' of
        Inl e \<Rightarrow> Inl e
      | Inr query \<Rightarrow> Inr (js_or (opt_member query ''pages'') (JObj [])))"

text \<open>Lines 86 to 103: from the parsed body to the list of results.\<close>

definition normalize_pages :: "jsval \<Rightarrow> error + normalized_result list" where
  "normalize_pages json =
     (case pages_of json of
        Inl e \<Rightarrow> Inl e
      | Inr pages \<Rightarrow>
          (case Object_values pages of
             Inl e \<Rightarrow> Inl e
           | Inr ps \<Rightarrow> map_results normalize_page ps))"

text \<open>
  What \<open>fetch\<close> resolves to: the status and what \<open>res.json()\<close> gives, a parsed value or
  the client's error. The upstream service is a function from the requested URL to
  such a response, or to the error \<open>fetch\<close> rejects with.
\<close>

record upstream_response =
  status :: nat
  json_body :: "error + jsval"

definition ok :: "upstream_response \<Rightarrow> bool" where
  "ok res = (200 \<le> status res \<and> status res \<le> 299)"

text \<open>
  \<open>searchWikimedia\<close> (lines 63 to 110): the request, the check of the status at line
  83, the parsed body, and the results in the order the normalizer produced them.
\<close>

record search_data =
  query :: string
  results :: "normalized_result list"

definition searchWikimedia ::
  "(string \<Rightarrow> error + upstream_response) \<Rightarrow> string \<Rightarrow> jsnum \<Rightarrow> jsnum \<Rightarrow> error + search_data" where
  "searchWikimedia fetch = (\<lambda>query page per_page.
      case fetch (search_url query page per_page) of
        Inl e \<Rightarrow> Inl e
      | Inr res \<Rightarrow>
          if \<not> ok res then Inl (Error (''Wikimedia API error '' @ show_nat (status res)))
          else (case json_body res of
                  Inl e \<Rightarrow> Inl e
                | Inr json \<Rightarrow>
                    (case normalize_pages json of
                       Inl e \<Rightarrow> Inl e
                     | Inr rs \<Rightarrow> Inr \<lparr> query = query, results = rs \<rparr>)))"

section \<open>The endpoint\<close>

text \<open>
  The query parameters of a request to \<open>/api/search\<close>, each absent or a string.
  Repeated and bracketed parameters, which the framework parses into arrays and
  objects, are outside the model.
\<close>

record request =
  query_q :: "string option"
  query_safe :: "string option"
  query_page :: "string option"
  query_per_page :: "string option"

text \<open>\<open>param || dflt\<close> for a parameter that is absent or a string.\<close>

definition or_default :: "string option \<Rightarrow> string \<Rightarrow> string" where
  "or_default param dflt = (case param of None \<Rightarrow> dflt | Some s \<Rightarrow> if s = [] then dflt else s)"

record search_response = search_data +
  page :: jsnum
  per_page :: jsnum
  count :: nat

datatype reply = Reply200 search_response | ReplyError nat string

text \<open>
  What handling one request does: the reply, the URLs fetched from the upstream
  service, and what \<open>console.error\<close> logged.
\<close>

record outcome =
  reply :: reply
  fetched :: "string list"
  logged :: "(string \<times> error) list"

text \<open>The callback of \<open>filter\<close> at lines 126 to 129.\<close>

definition keep_result :: "string \<Rightarrow> normalized_result \<Rightarrow> error + bool" where
  "keep_result safe item =
     (if \<not> truthy (thumbnail item) \<and> \<not> truthy (contentUrl item) then Inr False
      else passesSafeFilter (Some item) (Some safe))"

fun filter_results :: "('a \<Rightarrow> error + bool) \<Rightarrow> 'a list \<Rightarrow> error + 'a list" where
  "filter_results f [] = Inr []"
| "filter_results f (x # xs) =
     (case f x of
        Inl e \<Rightarrow> Inl e
      | Inr b \<Rightarrow>
          (case filter_results f xs of
             Inl e \<Rightarrow> Inl e
           | Inr ys \<Rightarrow> Inr (if b then x # ys else ys)))"

text \<open>The body of the \<open>try\<close> block after the check of \<open>q\<close> (lines 118 to 137).\<close>

definition search_and_filter ::
  "(string \<Rightarrow> error + upstream_response) \<Rightarrow> string \<Rightarrow> string \<Rightarrow> jsnum \<Rightarrow> jsnum
   \<Rightarrow> error + search_response" where
  "search_and_filter fetch q safe = (\<lambda>page per_page.
      case searchWikimedia fetch q page per_page of
        Inl e \<Rightarrow> Inl e
      | Inr data \<Rightarrow>
          (case filter_results (keep_result safe) (results data) of
             Inl e \<Rightarrow> Inl e
           | Inr filtered \<Rightarrow>
               Inr \<lparr> query = query data, results = filtered,
                     page = page, per_page = per_page, count = length filtered \<rparr>))"

text \<open>Lines 115 and 118 to 120: the parameters as the handler reads them.\<close>

definition request_q :: "request \<Rightarrow> string" where
  "request_q req = trim (or_default (query_q req) [])"

definition request_safe :: "request \<Rightarrow> string" where
  "request_safe req = or_default (query_safe req) ''Strict''"

definition request_page :: "request \<Rightarrow> jsnum" where
  "request_page req = Math_max (Fin 1) (parseInt (or_default (query_page req) ''1''))"

definition request_per_page :: "request \<Rightarrow> jsnum" where
  "request_per_page req =
     Math_min (Fin 48) (Math_max (Fin 8) (parseInt (or_default (query_per_page req) ''24'')))"

definition handler :: "(string \<Rightarrow> error + upstream_response) \<Rightarrow> request \<Rightarrow> outcome" where
  "handler fetch req =
     (let q = request_q req in
      if q = [] then
        \<lparr> reply = ReplyError 400 ''Missing q parameter'', fetched = [], logged = [] \<rparr>
      else
        let safe = request_safe req;
            page = request_page req;
            per_page = request_per_page req
        in case search_and_filter fetch q safe page per_page of
             Inl err \<Rightarrow>
               \<lparr> reply = ReplyError 500 (if message err = [] then ''Server error'' else message err),
                 fetched = [search_url q page per_page],
                 logged = [(''search error'', err)] \<rparr>
           | Inr resp \<Rightarrow>
               \<lparr> reply = Reply200 resp,
                 fetched = [search_url q page per_page],
                 logged = [] \<rparr>)"

section \<open>The specification's wording\<close>

text \<open>
  The specification speaks of fields that are present. A field is present when it is
  neither absent (\<open>undefined\<close>) nor \<open>null\<close>.
\<close>

definition present :: "jsval \<Rightarrow> bool" where
  "present v = (\<not> nullish v)"

text \<open>
  Field \<open>k\<close> of the first image-info element of a page record; \<open>undefined\<close> when the
  record has no image-info list, the list is empty, or the element has no such field.
\<close>

definition imageinfo_field :: "jsval \<Rightarrow> string \<Rightarrow> jsval" where
  "imageinfo_field p k =
     (case get p ''imageinfo'' of
        JArr xs \<Rightarrow> (case xs of [] \<Rightarrow> JUndefined | ii # r \<Rightarrow> opt_member ii k)
      | _ \<Rightarrow> JUndefined)"

text \<open>The first image-info's extended \<open>ImageDescription\<close> value.\<close>

definition image_description :: "jsval \<Rightarrow> jsval" where
  "image_description p =
     opt_member (opt_member (imageinfo_field p ''extmetadata'') ''ImageDescription'') ''value''"

text \<open>
  The description as the specification words it: the \<open>ImageDescription\<close> value if
  present, else the page extract if present, else the empty string, cleaned of tags
  and trimmed.
\<close>

definition spec_description :: "jsval \<Rightarrow> string" where
  "spec_description p =
     (if present (image_description p) then clean_description (image_description p)
      else if present (get p ''extract'') then clean_description (get p ''extract'')
      else [])"

text \<open>
  Width and height as the specification words them: copied from the first image-info
  when the element and the field are present, \<open>null\<close> otherwise.
\<close>

definition spec_dimension :: "jsval \<Rightarrow> string \<Rightarrow> jsval" where
  "spec_dimension p k = (if present (imageinfo_field p k) then imageinfo_field p k else JNull)"

text \<open>
  The offset as the specification words it: the product \<open>(page - 1) * per_page\<close> of
  the integers.
\<close>

definition spec_offset :: "int \<Rightarrow> int \<Rightarrow> int" where
  "spec_offset pg pp = (pg - 1) * pp"

text \<open>
  The records of a raw page mapping in insertion order, as the specification orders
  the results.
\<close>

definition insertion_order :: "(string \<times> jsval) list \<Rightarrow> jsval list" where
  "insertion_order kvs = map snd kvs"

section \<open>Properties of the string operations\<close>

lemma startsWith_iff: "startsWith s b = (\<exists>post. s = b @ post)"
  by (induction s b rule: startsWith.induct) auto

lemma includes_iff: "str_includes s b = (\<exists>pre post. s = pre @ b @ post)"
proof (induction s)
  case Nil
  then show ?case by simp
next
  case (Cons c cs)
  show ?case
  proof
    assume "str_includes (c # cs) b"
    then consider "startsWith (c # cs) b" | "str_includes cs b" by auto
    then show "\<exists>pre post. c # cs = pre @ b @ post"
    proof cases
      case 1
      then obtain post where "c # cs = b @ post" by (auto simp: startsWith_iff)
      then have "c # cs = [] @ b @ post" by simp
      then show ?thesis by blast
    next
      case 2
      then obtain pre post where "cs = pre @ b @ post" using Cons.IH by blast
      then have "c # cs = (c # pre) @ b @ post" by simp
      then show ?thesis by blast
    qed
  next
    assume "\<exists>pre post. c # cs = pre @ b @ post"
    then obtain pre post where eq: "c # cs = pre @ b @ post" by blast
    show "str_includes (c # cs) b"
    proof (cases pre)
      case Nil
      with eq have "startsWith (c # cs) b" by (auto simp: startsWith_iff)
      then show ?thesis by simp
    next
      case (Cons p ps)
      with eq have "cs = ps @ b @ post" by simp
      then have "str_includes cs b" using Cons.IH by blast
      then show ?thesis by simp
    qed
  qed
qed

lemma scan_blacklist_iff:
  "scan_blacklist lower bs = (\<not> (\<exists>bad \<in> set bs. \<exists>pre post. lower = pre @ bad @ post))"
  by (induction bs) (simp_all add: includes_iff)

lemma trim_Nil: "trim [] = []"
  by (simp add: trim_def)

lemma trim_part: "\<exists>a b. s = a @ trim s @ b"
proof -
  let ?ys = "dropWhile is_space s"
  have "s = takeWhile is_space s @ ?ys" by simp
  moreover have "rev ?ys = takeWhile is_space (rev ?ys) @ dropWhile is_space (rev ?ys)" by simp
  then have "?ys = trim s @ rev (takeWhile is_space (rev ?ys))"
    unfolding trim_def by (metis rev_append rev_rev_ident)
  ultimately have "s = takeWhile is_space s @ trim s @ rev (takeWhile is_space (rev ?ys))"
    by simp
  then show ?thesis by blast
qed

lemma trim_ends: "trim s = [] \<or> (\<not> is_space (hd (trim s)) \<and> \<not> is_space (last (trim s)))"
proof (cases "trim s = []")
  case True
  then show ?thesis by simp
next
  case False
  let ?ys = "dropWhile is_space s"
  let ?zs = "dropWhile is_space (rev ?ys)"
  from False have zs: "?zs \<noteq> []" by (simp add: trim_def)
  then have "\<not> is_space (hd ?zs)" by (rule hd_dropWhile)
  then have l: "\<not> is_space (last (trim s))"
    using zs by (simp add: trim_def last_rev)
  have ys: "?ys \<noteq> []"
  proof
    assume e: "?ys = []"
    show False using zs unfolding e by simp
  qed
  then have h: "\<not> is_space (hd ?ys)" by (rule hd_dropWhile)
  have "last ?zs = last (rev ?ys)"
    using zs by (metis (no_types, lifting) last_appendR takeWhile_dropWhile_id)
  then have "hd (trim s) = hd ?ys"
    using zs ys by (simp add: trim_def hd_rev last_rev)
  with h l show ?thesis by simp
qed

lemma strip_tags_subset: "set (strip_tags s) \<subseteq> set s"
proof (induction s rule: strip_tags.induct)
  case 1
  then show ?case by simp
next
  case (2 c cs)
  let ?rest = "dropWhile (\<lambda>d. d \<noteq> CHR ''>'') cs"
  have "set (tl ?rest) \<subseteq> set cs"
    by (metis list.set_sel(2) set_dropWhileD subsetI tl_Nil)
  with 2 show ?case
    by auto
qed

lemma strip_tags_no_tag:
  assumes "strip_tags s = pre @ CHR ''<'' # body @ CHR ''>'' # post"
    and "body \<noteq> []" and "CHR ''>'' \<notin> set body"
  shows False
  using assms
proof (induction s arbitrary: pre rule: strip_tags.induct)
  case 1
  then show ?case by simp
next
  case (2 c cs)
  let ?run = "takeWhile (\<lambda>d. d \<noteq> CHR ''>'') cs"
  let ?rest = "dropWhile (\<lambda>d. d \<noteq> CHR ''>'') cs"
  let ?matches = "c = CHR ''<'' \<and> ?run \<noteq> [] \<and> ?rest \<noteq> []"
  note eq = \<open>strip_tags (c # cs) = pre @ CHR ''<'' # body @ CHR ''>'' # post\<close>
  note body = \<open>body \<noteq> []\<close> \<open>CHR ''>'' \<notin> set body\<close>
  show ?case
  proof (cases ?matches)
    case True
    then have "strip_tags (c # cs) = strip_tags (tl ?rest)"
      by simp
    with eq have "strip_tags (tl ?rest) = pre @ CHR ''<'' # body @ CHR ''>'' # post"
      by (simp only:)
    from "2.IH"(1) [OF True this body] show ?thesis .
  next
    case False
    then have res: "strip_tags (c # cs) = c # strip_tags cs"
      by auto
    show ?thesis
    proof (cases pre)
      case (Cons a pre')
      with eq res have "strip_tags cs = pre' @ CHR ''<'' # body @ CHR ''>'' # post"
        by (simp only: append_Cons list.inject)
      from "2.IH"(2) [OF False this body] show ?thesis .
    next
      case Nil
      with eq res have c: "c = CHR ''<''" and rest: "strip_tags cs = body @ CHR ''>'' # post"
        by (simp_all only: append_Nil list.inject)
      from c False have "?run = [] \<or> ?rest = []"
        by blast
      then show ?thesis
      proof
        assume run: "?run = []"
        show ?thesis
        proof (cases cs)
          case Nil
          with rest show ?thesis by simp
        next
          case (Cons d ds)
          with run have "d = CHR ''>''"
            by (simp split: if_splits)
          with Cons rest have "CHR ''>'' # strip_tags ds = body @ CHR ''>'' # post"
            by simp
          with body show ?thesis
            by (cases body) simp_all
        qed
      next
        assume "?rest = []"
        then have "CHR ''>'' \<notin> set cs"
          by auto
        with strip_tags_subset [of cs] have "CHR ''>'' \<notin> set (strip_tags cs)"
          by blast
        with rest show ?thesis by simp
      qed
    qed
  qed
qed

section \<open>Properties of the numbers\<close>

lemma round_to_double_exact: "\<bar>n\<bar> < 9007199254740992 \<Longrightarrow> round_to_double n = Fin n"
  by (auto simp: round_to_double_def round_magnitude_def)

lemma round_to_double_not_negative: "0 \<le> n \<Longrightarrow> not_negative (round_to_double n)"
  by (simp add: round_to_double_def split: option.splits)

lemma Math_max_zero: "not_negative y \<Longrightarrow> Math_max (Fin 0) y = y"
  by (cases y) simp_all

lemma times_not_negative:
  assumes "not_negative x" and "0 < pp"
  shows "not_negative (num_times x (Fin pp))"
proof (cases x)
  case (Fin a)
  with assms have "0 \<le> a * pp" by simp
  with Fin show ?thesis by (simp add: round_to_double_not_negative)
qed (use assms in simp_all)

text \<open>The double \<open>9400000000000048\<close> prints all its sixteen digits.\<close>

lemma String_of_rounded_offset:
  "String_of_num (Fin 9400000000000048) = ''9400000000000048''"
  by (simp add: show_double_def shortest_digits_def shortest_candidates_def round_magnitude_def
      bit_length.simps Let_def show_nat.simps digit_char_def char_of_eq_iff upt_rec)

text \<open>The URL that is fetched, with the query, the limit and the offset in their places.\<close>

lemma search_url_layout:
  "search_url q pg pp
   = ''https://commons.wikimedia.org/w/api.php?action=query&format=json&generator=search&gsrsearch=''
     @ form_encode q @ ''&gsrlimit='' @ form_encode (String_of_num pp)
     @ ''&gsroffset='' @ form_encode (String_of_num (sroffset pg pp))
     @ ''&prop=imageinfo%7Cpageimages%7Cinfo&iiprop=url%7Cmime%7Csize%7Cextmetadata&piprop=thumbnail&pithumbsize=640&inprop=url&origin=*''"
proof -
  have plain:
    "form_encode ''action'' = ''action''" "form_encode ''query'' = ''query''"
    "form_encode ''format'' = ''format''" "form_encode ''json'' = ''json''"
    "form_encode ''generator'' = ''generator''" "form_encode ''search'' = ''search''"
    "form_encode ''gsrsearch'' = ''gsrsearch''" "form_encode ''gsrlimit'' = ''gsrlimit''"
    "form_encode ''gsroffset'' = ''gsroffset''" "form_encode ''prop'' = ''prop''"
    "form_encode ''imageinfo|pageimages|info'' = ''imageinfo%7Cpageimages%7Cinfo''"
    "form_encode ''iiprop'' = ''iiprop''"
    "form_encode ''url|mime|size|extmetadata'' = ''url%7Cmime%7Csize%7Cextmetadata''"
    "form_encode ''piprop'' = ''piprop''" "form_encode ''thumbnail'' = ''thumbnail''"
    "form_encode ''pithumbsize'' = ''pithumbsize''" "form_encode ''640'' = ''640''"
    "form_encode ''inprop'' = ''inprop''" "form_encode ''url'' = ''url''"
    "form_encode ''origin'' = ''origin''" "form_encode ''*'' = ''*''"
    by (simp_all add: form_encode_def is_alnum_def code_unit_def percent_encode_def
        utf8_bytes_def percent_byte_def hex_digit_def)
  show ?thesis
    by (simp add: search_url_def search_params_def plain)
qed

section \<open>Evaluation on concrete inputs\<close>

text \<open>The equations that compute the model on closed terms, grouped by layer.\<close>

lemmas eval_string = trim_start_def trim_def is_space_def code_unit_def toLowerCase_def
  lower_char_def digit_char_def show_int_def show_nat.simps char_of_eq_iff

lemmas eval_parse = parseInt_def strip_sign_def strip_radix_def radix_digit_def radix_value_def
  or_default_def round_to_double_def round_magnitude_def show_double_def

lemmas eval_request = request_q_def request_safe_def request_page_def request_per_page_def

lemmas eval_search = handler_def search_and_filter_def searchWikimedia_def ok_def
  normalize_pages_def pages_of_def member_of_def opt_member_def js_or_def own_property_order_def
  is_array_index_def is_digit_def digits_value_def Let_def

lemmas eval_normalize = normalize_page_def first_imageinfo_def page_thumbnail_def page_desc_def
  clean_description_def page_hostPage_def encodeURIComponent_def is_alnum_def percent_encode_def
  utf8_bytes_def percent_byte_def hex_digit_def

lemmas eval_filter = keep_result_def passesSafeFilter_def filter_text_def BLACKLIST_def

lemmas eval_spec = present_def imageinfo_field_def image_description_def spec_description_def
  spec_dimension_def insertion_order_def

section \<open>Properties of the normalizer and the handler\<close>

lemma truthy_present: "truthy v \<Longrightarrow> present v"
  by (cases v) (simp_all add: present_def)

lemma first_imageinfo_field: "opt_member (first_imageinfo p) k = imageinfo_field p k"
  by (simp add: first_imageinfo_def imageinfo_field_def opt_member_def
      split: jsval.splits list.splits)

lemma normalize_page_fields:
  assumes "normalize_page p = Inr r"
  shows "width r = js_or (imageinfo_field p ''width'') JNull"
    and "height r = js_or (imageinfo_field p ''height'') JNull"
    and "description r
         = clean_description (js_or (js_or (image_description p) (get p ''extract'')) (JStr []))"
    and "contentUrl r = js_or (imageinfo_field p ''url'') JNull"
    and "id' r = get p ''pageid''"
    and "title r = get p ''title''"
  using assms
  by (auto simp: normalize_page_def Let_def page_desc_def image_description_def
      first_imageinfo_field split: if_splits sum.splits)

lemma handler_200:
  assumes "reply (handler fetch req) = Reply200 resp"
  shows "search_and_filter fetch (request_q req) (request_safe req) (request_page req)
           (request_per_page req) = Inr resp"
  using assms by (auto simp: handler_def Let_def split: if_splits sum.splits)

lemma search_and_filter_fields:
  assumes "search_and_filter fetch q safe pg pp = Inr resp"
  shows "page resp = pg" and "per_page resp = pp" and "count resp = length (results resp)"
    and "query resp = q"
  using assms
  by (auto simp: search_and_filter_def searchWikimedia_def split: sum.splits if_splits)

lemma filter_results_mem:
  "filter_results f xs = Inr ys \<Longrightarrow> y \<in> set ys \<Longrightarrow> y \<in> set xs \<and> f y = Inr True"
proof (induction xs arbitrary: ys)
  case Nil
  then show ?case by simp
next
  case (Cons x xs)
  then show ?case
    by (auto split: sum.splits if_splits)
qed

lemma map_results_nth:
  "map_results f xs = Inr ys
   \<Longrightarrow> length ys = length xs \<and> (\<forall>i<length xs. f (xs ! i) = Inr (ys ! i))"
proof (induction xs arbitrary: ys)
  case Nil
  then show ?case by simp
next
  case (Cons x xs)
  from Cons.prems obtain y ys' where
    fx: "f x = Inr y" and rest: "map_results f xs = Inr ys'" and ys: "ys = y # ys'"
    by (auto split: sum.splits)
  from Cons.IH [OF rest] have
    len: "length ys' = length xs" and nth: "\<forall>i<length xs. f (xs ! i) = Inr (ys' ! i)"
    by simp_all
  show ?case
  proof (intro conjI allI impI)
    show "length ys = length (x # xs)" using len ys by simp
  next
    fix i assume "i < length (x # xs)"
    then show "f ((x # xs) ! i) = Inr (ys ! i)"
      using fx nth ys by (cases i) simp_all
  qed
qed

lemma own_property_order_length: "length (own_property_order kvs) = length kvs"
  by (simp add: own_property_order_def sum_length_filter_compl)

lemma own_property_order_index_part:
  "filter (\<lambda>kv. is_array_index (fst kv)) (own_property_order kvs)
   = sort_key (\<lambda>kv. digits_value (fst kv)) (filter (\<lambda>kv. is_array_index (fst kv)) kvs)"
  by (simp add: own_property_order_def filter_sort)

lemma own_property_order_other_part:
  "filter (\<lambda>kv. \<not> is_array_index (fst kv)) (own_property_order kvs)
   = filter (\<lambda>kv. \<not> is_array_index (fst kv)) kvs"
  by (simp add: own_property_order_def filter_sort)

lemma own_property_order_no_index:
  "list_all (\<lambda>kv. \<not> is_array_index (fst kv)) kvs \<Longrightarrow> own_property_order kvs = kvs"
  by (simp add: own_property_order_def list_all_iff)

lemma own_property_order_ascending:
  assumes "list_all (\<lambda>kv. is_array_index (fst kv)) kvs"
    and "sorted (map (\<lambda>kv. digits_value (fst kv)) kvs)"
  shows "own_property_order kvs = kvs"
proof -
  from assms(1) have "filter (\<lambda>kv. is_array_index (fst kv)) kvs = kvs"
    and "filter (\<lambda>kv. \<not> is_array_index (fst kv)) kvs = []"
    by (simp_all add: list_all_iff)
  with assms(2) show ?thesis
    by (simp add: own_property_order_def sort_key_id_if_sorted)
qed

section \<open>The safe filter: verdicts\<close>

text \<open>
  C1. For every result record and every mode: a mode other than \<open>Strict\<close> (recognised
  or not) lets the record pass unconditionally. Under \<open>Strict\<close> (also when the mode is
  left out, since it is the default) the record is rejected exactly when the
  lower-cased text, the title and the description joined by a space, contains a term
  of the blacklist as a literal substring. The text of a record whose title is a
  string is that string, a space and the description; a missing title (\<open>undefined\<close> or
  \<open>null\<close>) counts as the empty string.
\<close>

theorem passesSafeFilter_contract:
  "(mode \<noteq> ''Strict'' \<longrightarrow> passesSafeFilter (Some item) (Some mode) = Inr True)
   \<and> (filter_text item = Inr t \<longrightarrow>
        passesSafeFilter (Some item) (Some ''Strict'')
          = Inr (\<not> (\<exists>bad \<in> set BLACKLIST. \<exists>pre post. toLowerCase t = pre @ bad @ post)))
   \<and> passesSafeFilter (Some item) None = passesSafeFilter (Some item) (Some ''Strict'')
   \<and> (title item = JStr s \<longrightarrow> filter_text item = Inr (s @ '' '' @ description item))
   \<and> (nullish (title item) \<longrightarrow> filter_text item = Inr ('' '' @ description item))"
proof -
  have a: "mode \<noteq> ''Strict'' \<longrightarrow> passesSafeFilter (Some item) (Some mode) = Inr True"
    by (simp add: passesSafeFilter_def)
  have b: "filter_text item = Inr t \<longrightarrow>
        passesSafeFilter (Some item) (Some ''Strict'')
          = Inr (\<not> (\<exists>bad \<in> set BLACKLIST. \<exists>pre post. toLowerCase t = pre @ bad @ post))"
    by (simp add: passesSafeFilter_def scan_blacklist_iff)
  have c: "passesSafeFilter (Some item) None = passesSafeFilter (Some item) (Some ''Strict'')"
    by (simp add: passesSafeFilter_def)
  have d: "title item = JStr s \<longrightarrow> filter_text item = Inr (s @ '' '' @ description item)"
    by (simp add: filter_text_def js_or_def)
  have e: "nullish (title item) \<longrightarrow> filter_text item = Inr ('' '' @ description item)"
    by (cases "title item") (simp_all add: filter_text_def js_or_def)
  from a b c d e show ?thesis by blast
qed

text \<open>
  The record titled \<open>Sexton House\<close> is rejected under \<open>Strict\<close>, because \<open>sexton\<close>
  contains \<open>sex\<close>, and passes under \<open>Off\<close>.
\<close>

theorem passesSafeFilter_contract_witness:
  "passesSafeFilter
     (Some \<lparr> id' = JNum 1, title = JStr ''Sexton House'', thumbnail = JStr ''t'',
             contentUrl = JNull, hostPage = JStr ''h'', width = JNull, height = JNull,
             description = [] \<rparr>) (Some ''Strict'') = Inr False
   \<and> passesSafeFilter
     (Some \<lparr> id' = JNum 1, title = JStr ''Sexton House'', thumbnail = JStr ''t'',
             contentUrl = JNull, hostPage = JStr ''h'', width = JNull, height = JNull,
             description = [] \<rparr>) (Some ''Off'') = Inr True"
proof -
  let ?item = "\<lparr> id' = JNum 1, title = JStr ''Sexton House'', thumbnail = JStr ''t'',
             contentUrl = JNull, hostPage = JStr ''h'', width = JNull, height = JNull,
             description = [] \<rparr>"
  note inst = passesSafeFilter_contract [of "''Off''" ?item "''Sexton House ''" "''Sexton House''"]
  have ft: "filter_text ?item = Inr ''Sexton House ''"
    using inst by simp
  have low: "toLowerCase ''Sexton House '' = ''sexton house ''"
    by (simp add: toLowerCase_def lower_char_def code_unit_def char_of_eq_iff)
  have "''sex'' \<in> set BLACKLIST"
    by (simp add: BLACKLIST_def)
  moreover have "''sexton house '' = [] @ ''sex'' @ ''ton house ''"
    by simp
  ultimately have ex: "\<exists>bad \<in> set BLACKLIST. \<exists>pre post. toLowerCase ''Sexton House '' = pre @ bad @ post"
    unfolding low by blast
  from inst ft ex show ?thesis by simp
qed

text \<open>
  C10. The verdict depends only on the title, the description and the mode: two
  records that agree on title and description get the same verdict under every mode,
  whatever their other fields hold.
\<close>

theorem passesSafeFilter_reads_title_description:
  assumes "title a = title b" and "description a = description b"
  shows "passesSafeFilter (Some a) mode = passesSafeFilter (Some b) mode"
proof -
  from assms have "filter_text a = filter_text b"
    by (simp add: filter_text_def split: sum.splits)
  then show ?thesis
    by (simp add: passesSafeFilter_def)
qed

theorem passesSafeFilter_reads_title_description_witness:
  "passesSafeFilter
     (Some \<lparr> id' = JNum 1, title = JStr ''Nude study'', thumbnail = JStr ''t'',
             contentUrl = JNull, hostPage = JStr ''h'', width = JNum 640, height = JNull,
             description = ''oil'' \<rparr>) (Some ''Strict'')
   = passesSafeFilter
     (Some \<lparr> id' = JNum 2, title = JStr ''Nude study'', thumbnail = JNull,
             contentUrl = JStr ''u'', hostPage = JStr ''g'', width = JNull, height = JNum 480,
             description = ''oil'' \<rparr>) (Some ''Strict'')"
  by (rule passesSafeFilter_reads_title_description) simp_all

section \<open>The endpoint: parameters and failures\<close>

text \<open>
  C5. A request whose \<open>q\<close> parameter is absent, or blank (empty once white space is
  trimmed), is answered with status 400 and the body \<open>{"error": "Missing q parameter"}\<close>;
  nothing is fetched from the upstream service and nothing is logged.
\<close>

theorem missing_q_is_400:
  assumes "query_q req = None \<or> (\<exists>s. query_q req = Some s \<and> trim s = [])"
  shows "handler fetch req
         = \<lparr> reply = ReplyError 400 ''Missing q parameter'', fetched = [], logged = [] \<rparr>"
proof -
  from assms have "request_q req = []"
    by (auto simp: request_q_def or_default_def trim_Nil)
  then show ?thesis
    by (simp add: handler_def)
qed

theorem missing_q_is_400_witness:
  "handler (\<lambda>u. Inr \<lparr> status = 200, json_body = Inr (JObj []) \<rparr>)
     \<lparr> query_q = None, query_safe = None, query_page = None, query_per_page = None \<rparr>
   = \<lparr> reply = ReplyError 400 ''Missing q parameter'', fetched = [], logged = [] \<rparr>
   \<and> handler (\<lambda>u. Inr \<lparr> status = 200, json_body = Inr (JObj []) \<rparr>)
     \<lparr> query_q = Some ''   '', query_safe = Some ''Off'', query_page = Some ''2'',
       query_per_page = None \<rparr>
   = \<lparr> reply = ReplyError 400 ''Missing q parameter'', fetched = [], logged = [] \<rparr>"
proof -
  have blank: "trim ''   '' = []"
    by (simp add: eval_string)
  show ?thesis
    using missing_q_is_400 [of "\<lparr> query_q = None, query_safe = None, query_page = None,
                                  query_per_page = None \<rparr>"]
      missing_q_is_400 [of "\<lparr> query_q = Some ''   '', query_safe = Some ''Off'',
                              query_page = Some ''2'', query_per_page = None \<rparr>"] blank
    by simp
qed

text \<open>
  C6, as the code has it. For a page number \<open>pg \<ge> 1\<close> and a page size \<open>pp\<close> in
  \<open>[8, 48]\<close>, the offset is the product \<open>(pg - 1) * pp\<close> as the engine computes it on
  doubles: the clamp at 0 changes nothing, the offset is never negative and never
  \<open>NaN\<close>, and it is what \<open>gsroffset\<close> carries. Where the product of the integers is
  below \<open>2^53\<close> the offset is exactly that product, printed in decimal; beyond, it is
  the double the engine rounds to. An infinite page number gives an infinite offset.
\<close>

theorem offset_from_page:
  assumes "1 \<le> pg" and "8 \<le> pp" and "pp \<le> 48"
  shows "sroffset (Fin pg) (Fin pp) = num_times (num_minus (Fin pg) (Fin 1)) (Fin pp)
       \<and> not_negative (sroffset (Fin pg) (Fin pp))
       \<and> (spec_offset pg pp < 9007199254740992 \<longrightarrow>
            sroffset (Fin pg) (Fin pp) = Fin (spec_offset pg pp)
            \<and> map_of (search_params q (Fin pg) (Fin pp)) ''gsroffset''
                = Some (show_int (spec_offset pg pp)))
       \<and> map_of (search_params q (Fin pg) (Fin pp)) ''gsroffset''
           = Some (String_of_num (sroffset (Fin pg) (Fin pp)))
       \<and> search_url q (Fin pg) (Fin pp)
           = ''https://commons.wikimedia.org/w/api.php?action=query&format=json&generator=search&gsrsearch=''
             @ form_encode q @ ''&gsrlimit='' @ form_encode (String_of_num (Fin pp))
             @ ''&gsroffset='' @ form_encode (String_of_num (sroffset (Fin pg) (Fin pp)))
             @ ''&prop=imageinfo%7Cpageimages%7Cinfo&iiprop=url%7Cmime%7Csize%7Cextmetadata&piprop=thumbnail&pithumbsize=640&inprop=url&origin=*''
       \<and> sroffset PosInf (Fin pp) = PosInf"
proof -
  let ?product = "num_times (num_minus (Fin pg) (Fin 1)) (Fin pp)"
  from assms have "not_negative (num_minus (Fin pg) (Fin 1))"
    by (simp add: round_to_double_not_negative)
  with assms have nonneg: "not_negative ?product"
    by (simp add: times_not_negative)
  then have off: "sroffset (Fin pg) (Fin pp) = ?product"
    by (simp add: sroffset_def Math_max_zero)
  have param: "map_of (search_params q (Fin pg) (Fin pp)) ''gsroffset''
                 = Some (String_of_num (sroffset (Fin pg) (Fin pp)))"
    by (simp add: search_params_def)
  have exact: "sroffset (Fin pg) (Fin pp) = Fin (spec_offset pg pp)
               \<and> map_of (search_params q (Fin pg) (Fin pp)) ''gsroffset''
                   = Some (show_int (spec_offset pg pp))"
    if small: "spec_offset pg pp < 9007199254740992"
  proof -
    from assms have "0 \<le> pg - 1" and "1 \<le> pp" by simp_all
    then have "pg - 1 \<le> (pg - 1) * pp"
      by (simp add: mult_le_cancel_left1)
    with small \<open>0 \<le> pg - 1\<close> have a: "\<bar>pg - 1\<bar> < 9007199254740992"
      by (simp add: spec_offset_def)
    from \<open>0 \<le> pg - 1\<close> \<open>1 \<le> pp\<close> have "0 \<le> (pg - 1) * pp" by simp
    with small have b: "\<bar>(pg - 1) * pp\<bar> < 9007199254740992"
      by (simp add: spec_offset_def)
    from a b have p: "?product = Fin (spec_offset pg pp)"
      by (simp add: round_to_double_exact spec_offset_def)
    with off have o: "sroffset (Fin pg) (Fin pp) = Fin (spec_offset pg pp)" by simp
    from b have "nat ((pg - 1) * pp) < 9007199254740992"
      by linarith
    with \<open>0 \<le> (pg - 1) * pp\<close>
    have "String_of_num (Fin (spec_offset pg pp)) = show_int (spec_offset pg pp)"
      by (simp add: spec_offset_def show_double_def show_int_def)
    with o param show ?thesis by simp
  qed
  have inf: "sroffset PosInf (Fin pp) = PosInf"
    using assms by (simp add: sroffset_def)
  from nonneg off have "not_negative (sroffset (Fin pg) (Fin pp))"
    by simp
  with off exact param inf search_url_layout [of q "Fin pg" "Fin pp"] show ?thesis
    by blast
qed

text \<open>Page 2 of size 10 asks for offset 10; page 1 asks for offset 0.\<close>

theorem offset_from_page_witness:
  "sroffset (Fin 2) (Fin 10) = Fin 10 \<and> sroffset (Fin 1) (Fin 24) = Fin 0
   \<and> map_of (search_params ''cat'' (Fin 2) (Fin 10)) ''gsroffset'' = Some ''10''
   \<and> search_url ''cat'' (Fin 2) (Fin 10)
       = ''https://commons.wikimedia.org/w/api.php?action=query&format=json&generator=search&gsrsearch=cat&gsrlimit=10&gsroffset=10&prop=imageinfo%7Cpageimages%7Cinfo&iiprop=url%7Cmime%7Csize%7Cextmetadata&piprop=thumbnail&pithumbsize=640&inprop=url&origin=*''"
proof -
  have page2: "1 \<le> (2::int)" "8 \<le> (10::int)" "(10::int) \<le> 48"
    and page1: "1 \<le> (1::int)" "8 \<le> (24::int)" "(24::int) \<le> 48"
    by simp_all
  have small: "spec_offset 2 10 < 9007199254740992" "spec_offset 1 24 < 9007199254740992"
    by (simp_all add: spec_offset_def)
  from offset_from_page [OF page2, of "''cat''"] small(1)
  have "sroffset (Fin 2) (Fin 10) = Fin (spec_offset 2 10)
        \<and> map_of (search_params ''cat'' (Fin 2) (Fin 10)) ''gsroffset''
            = Some (show_int (spec_offset 2 10))"
    by blast
  then have off2: "sroffset (Fin 2) (Fin 10) = Fin 10"
    and param: "map_of (search_params ''cat'' (Fin 2) (Fin 10)) ''gsroffset'' = Some ''10''"
    by (simp_all add: spec_offset_def eval_string)
  from offset_from_page [OF page1, of "''cat''"] small(2)
  have "sroffset (Fin 1) (Fin 24) = Fin (spec_offset 1 24)"
    by blast
  then have off1: "sroffset (Fin 1) (Fin 24) = Fin 0"
    by (simp add: spec_offset_def)
  have enc: "form_encode ''cat'' = ''cat''" "form_encode (String_of_num (Fin 10)) = ''10''"
    by (simp_all add: form_encode_def is_alnum_def eval_parse eval_string)
  from offset_from_page [OF page2, of "''cat''"]
  have "search_url ''cat'' (Fin 2) (Fin 10)
        = ''https://commons.wikimedia.org/w/api.php?action=query&format=json&generator=search&gsrsearch=''
          @ form_encode ''cat'' @ ''&gsrlimit='' @ form_encode (String_of_num (Fin 10))
          @ ''&gsroffset='' @ form_encode (String_of_num (sroffset (Fin 2) (Fin 10)))
          @ ''&prop=imageinfo%7Cpageimages%7Cinfo&iiprop=url%7Cmime%7Csize%7Cextmetadata&piprop=thumbnail&pithumbsize=640&inprop=url&origin=*''"
    by blast
  then have url: "search_url ''cat'' (Fin 2) (Fin 10)
       = ''https://commons.wikimedia.org/w/api.php?action=query&format=json&generator=search&gsrsearch=cat&gsrlimit=10&gsroffset=10&prop=imageinfo%7Cpageimages%7Cinfo&iiprop=url%7Cmime%7Csize%7Cextmetadata&piprop=thumbnail&pithumbsize=640&inprop=url&origin=*''"
    unfolding off2 enc by simp
  from off2 off1 param url show ?thesis
    by blast
qed

text \<open>
  C6 as stated, with the product of the integers, fails beyond \<open>2^53\<close>. The request
  \<open>page=200000000000002&per_page=47\<close> is read as page 200000000000002 of size 47; the
  product of the integers is 9400000000000047, which no double holds, and the offset
  sent upstream is 9400000000000048.
\<close>

theorem exact_offset_counterexample:
  "request_page \<lparr> query_q = Some ''cat'', query_safe = None,
                  query_page = Some ''200000000000002'', query_per_page = Some ''47'' \<rparr>
     = Fin 200000000000002
   \<and> request_per_page \<lparr> query_q = Some ''cat'', query_safe = None,
                  query_page = Some ''200000000000002'', query_per_page = Some ''47'' \<rparr>
     = Fin 47
   \<and> spec_offset 200000000000002 47 = 9400000000000047
   \<and> sroffset (Fin 200000000000002) (Fin 47) = Fin 9400000000000048
   \<and> map_of (search_params ''cat'' (Fin 200000000000002) (Fin 47)) ''gsroffset''
       = Some ''9400000000000048''"
proof -
  have off: "sroffset (Fin 200000000000002) (Fin 47) = Fin 9400000000000048"
    by (simp add: sroffset_def round_to_double_def round_magnitude_def bit_length.simps Let_def)
  have "map_of (search_params ''cat'' (Fin 200000000000002) (Fin 47)) ''gsroffset''
          = Some (String_of_num (sroffset (Fin 200000000000002) (Fin 47)))"
    by (simp add: search_params_def)
  then have param: "map_of (search_params ''cat'' (Fin 200000000000002) (Fin 47)) ''gsroffset''
                      = Some ''9400000000000048''"
    unfolding off String_of_rounded_offset .
  have parsed: "request_page \<lparr> query_q = Some ''cat'', query_safe = None,
                  query_page = Some ''200000000000002'', query_per_page = Some ''47'' \<rparr>
                  = Fin 200000000000002"
    "request_per_page \<lparr> query_q = Some ''cat'', query_safe = None,
                  query_page = Some ''200000000000002'', query_per_page = Some ''47'' \<rparr>
       = Fin 47"
    by (simp_all add: eval_request eval_parse eval_string)
  have "spec_offset 200000000000002 47 = 9400000000000047"
    by (simp add: spec_offset_def)
  with parsed off param show ?thesis
    by blast
qed

text \<open>
  C3. The handler computes \<open>per_page\<close> as \<open>Math.min(48, Math.max(8, parseInt(...)))\<close>. For
  a parameter that does not start with a number, \<open>parseInt\<close> gives \<open>NaN\<close>, which both
  \<open>Math.max\<close> and \<open>Math.min\<close> hand on: the request \<open>q=cat&per_page=abc\<close> gets a 200
  response whose \<open>per_page\<close> is \<open>NaN\<close>, not a number in \<open>[8, 48]\<close>.
\<close>

theorem per_page_NaN_for_non_numeric:
  "reply (handler (\<lambda>u. Inr \<lparr> status = 200, json_body = Inr (JObj []) \<rparr>)
            \<lparr> query_q = Some ''cat'', query_safe = None, query_page = None,
              query_per_page = Some ''abc'' \<rparr>)
   = Reply200 \<lparr> query = ''cat'', results = [], page = Fin 1, per_page = NaN, count = 0 \<rparr>"
  by (simp add: eval_search eval_request eval_parse eval_string)

text \<open>
  Where the parameter does start with a number, the response's \<open>per_page\<close> is that
  number clamped to \<open>[8, 48]\<close>: 1000 gives 48, 0 gives 8, and an absent parameter gives
  the default 24.
\<close>

lemma per_page_clamped_when_numeric:
  assumes "parseInt (or_default (query_per_page req) ''24'') = Fin n"
    and "reply (handler fetch req) = Reply200 resp"
  shows "per_page resp = Fin (min 48 (max 8 n)) \<and> 8 \<le> min 48 (max 8 n) \<and> min 48 (max 8 n) \<le> 48"
proof -
  from search_and_filter_fields(2) [OF handler_200 [OF assms(2)]]
  have "per_page resp = request_per_page req" .
  with assms(1) show ?thesis
    by (simp add: request_per_page_def)
qed

lemma per_page_clamped_examples:
  "reply (handler (\<lambda>u. Inr \<lparr> status = 200, json_body = Inr (JObj []) \<rparr>)
            \<lparr> query_q = Some ''cat'', query_safe = None, query_page = None,
              query_per_page = Some ''1000'' \<rparr>)
   = Reply200 \<lparr> query = ''cat'', results = [], page = Fin 1, per_page = Fin 48, count = 0 \<rparr>
   \<and> reply (handler (\<lambda>u. Inr \<lparr> status = 200, json_body = Inr (JObj []) \<rparr>)
            \<lparr> query_q = Some ''cat'', query_safe = None, query_page = None,
              query_per_page = Some ''0'' \<rparr>)
   = Reply200 \<lparr> query = ''cat'', results = [], page = Fin 1, per_page = Fin 8, count = 0 \<rparr>
   \<and> reply (handler (\<lambda>u. Inr \<lparr> status = 200, json_body = Inr (JObj []) \<rparr>)
            \<lparr> query_q = Some ''cat'', query_safe = None, query_page = None,
              query_per_page = None \<rparr>)
   = Reply200 \<lparr> query = ''cat'', results = [], page = Fin 1, per_page = Fin 24, count = 0 \<rparr>"
proof -
  let ?fetch = "\<lambda>u :: string. (Inr \<lparr> status = 200, json_body = Inr (JObj []) \<rparr>
                                  :: error + upstream_response)"
  let ?req = "\<lambda>pp. \<lparr> query_q = Some ''cat'', query_safe = None, query_page = None,
                       query_per_page = pp \<rparr>"
  let ?resp = "\<lambda>n. \<lparr> query = ''cat'', results = [], page = Fin 1, per_page = Fin n, count = 0 \<rparr>"
  have p1: "parseInt (or_default (query_per_page (?req (Some ''1000''))) ''24'') = Fin 1000"
    and p2: "parseInt (or_default (query_per_page (?req (Some ''0''))) ''24'') = Fin 0"
    and p3: "parseInt (or_default (query_per_page (?req None)) ''24'') = Fin 24"
    by (simp_all add: eval_parse eval_string)
  have r1: "reply (handler ?fetch (?req (Some ''1000''))) = Reply200 (?resp 48)"
    and r2: "reply (handler ?fetch (?req (Some ''0''))) = Reply200 (?resp 8)"
    and r3: "reply (handler ?fetch (?req None)) = Reply200 (?resp 24)"
    by (simp_all add: eval_search eval_request eval_parse eval_string)
  from per_page_clamped_when_numeric [OF p1 r1] per_page_clamped_when_numeric [OF p2 r2]
    per_page_clamped_when_numeric [OF p3 r3] r1 r2 r3
  show ?thesis by simp
qed

text \<open>
  C7, as the code has it. When the upstream service answers with a status outside 200
  to 299, the request fails with status 500. The error is a plain \<open>Error\<close> whose message
  \<open>Wikimedia API error <status>\<close> carries the upstream status; that message is logged,
  and the same message is the \<open>error\<close> field of the body sent to the caller.
\<close>

theorem upstream_failure_is_500:
  assumes "request_q req \<noteq> []"
    and "fetch (search_url (request_q req) (request_page req) (request_per_page req)) = Inr res"
    and "\<not> ok res"
  shows "handler fetch req
         = \<lparr> reply = ReplyError 500 (''Wikimedia API error '' @ show_nat (status res)),
             fetched = [search_url (request_q req) (request_page req) (request_per_page req)],
             logged = [(''search error'',
                        Error (''Wikimedia API error '' @ show_nat (status res)))] \<rparr>"
  using assms by (simp add: handler_def search_and_filter_def searchWikimedia_def)

theorem upstream_failure_is_500_witness:
  "reply (handler (\<lambda>u. Inr \<lparr> status = 503, json_body = Inr JNull \<rparr>)
            \<lparr> query_q = Some ''cat'', query_safe = None, query_page = None,
              query_per_page = None \<rparr>)
     = ReplyError 500 ''Wikimedia API error 503''
   \<and> logged (handler (\<lambda>u. Inr \<lparr> status = 503, json_body = Inr JNull \<rparr>)
            \<lparr> query_q = Some ''cat'', query_safe = None, query_page = None,
              query_per_page = None \<rparr>)
     = [(''search error'', Error ''Wikimedia API error 503'')]"
proof -
  let ?req = "\<lparr> query_q = Some ''cat'', query_safe = None, query_page = None,
              query_per_page = None \<rparr>"
  let ?res = "\<lparr> status = 503, json_body = Inr JNull \<rparr>"
  have q: "request_q ?req \<noteq> []"
    by (simp add: request_q_def or_default_def eval_string)
  have bad: "\<not> ok ?res"
    by (simp add: ok_def)
  have n: "show_nat 503 = ''503''"
    by (simp add: eval_string)
  show ?thesis
    using upstream_failure_is_500 [of ?req "\<lambda>u. Inr ?res" ?res, OF q _ bad] n
    by simp
qed

text \<open>
  C7 as stated says that the caller gets only a generic message. The body sent for an
  upstream status 503 is \<open>Wikimedia API error 503\<close> and for 404 it is
  \<open>Wikimedia API error 404\<close>: the caller's message names the upstream status, and it
  is not the handler's generic \<open>Server error\<close>.
\<close>

theorem caller_message_counterexample:
  "reply (handler (\<lambda>u. Inr \<lparr> status = 503, json_body = Inr JNull \<rparr>)
            \<lparr> query_q = Some ''cat'', query_safe = None, query_page = None,
              query_per_page = None \<rparr>)
     = ReplyError 500 ''Wikimedia API error 503''
   \<and> reply (handler (\<lambda>u. Inr \<lparr> status = 404, json_body = Inr JNull \<rparr>)
            \<lparr> query_q = Some ''cat'', query_safe = None, query_page = None,
              query_per_page = None \<rparr>)
     = ReplyError 500 ''Wikimedia API error 404''
   \<and> reply (handler (\<lambda>u. Inr \<lparr> status = 503, json_body = Inr JNull \<rparr>)
            \<lparr> query_q = Some ''cat'', query_safe = None, query_page = None,
              query_per_page = None \<rparr>)
     \<noteq> ReplyError 500 ''Server error''"
  by (simp add: eval_search eval_request eval_parse eval_string)

section \<open>The endpoint: results\<close>

text \<open>
  C4. Whatever the safe mode, every result in a 200 response has a thumbnail or a
  content URL that is set: at least one of the two is truthy, so not both are \<open>null\<close>
  (or \<open>undefined\<close>). Records with neither are dropped by the handler's filter before
  the safe filter is asked.
\<close>

theorem results_have_image:
  assumes "reply (handler fetch req) = Reply200 resp" and "r \<in> set (results resp)"
  shows "(truthy (thumbnail r) \<or> truthy (contentUrl r))
         \<and> \<not> (nullish (thumbnail r) \<and> nullish (contentUrl r))"
proof -
  let ?safe = "request_safe req"
  from handler_200 [OF assms(1)] obtain rs where
    filt: "filter_results (keep_result ?safe) rs = Inr (results resp)"
    by (auto simp: search_and_filter_def split: sum.splits)
  from filter_results_mem [OF filt assms(2)] have "keep_result ?safe r = Inr True"
    by simp
  then have "truthy (thumbnail r) \<or> truthy (contentUrl r)"
    by (auto simp: keep_result_def split: if_splits)
  with truthy_present show ?thesis
    unfolding present_def by blast
qed

theorem results_have_image_witness:
  "reply (handler
      (\<lambda>u. Inr \<lparr> status = 200, json_body = Inr
         (JObj [(''query'', JObj [(''pages'', JObj
            [(''7'', JObj [(''pageid'', JNum 7), (''title'', JStr ''File:Cat.jpg''),
                          (''fullurl'', JStr ''https://commons.wikimedia.org/wiki/File:Cat.jpg''),
                          (''thumbnail'', JObj [(''source'', JStr ''https://t/Cat.jpg'')])]),
             (''9'', JObj [(''pageid'', JNum 9), (''title'', JStr ''Cat''),
                          (''fullurl'', JStr ''https://commons.wikimedia.org/wiki/Cat'')])])])]) \<rparr>)
      \<lparr> query_q = Some ''cat'', query_safe = Some ''Off'', query_page = None,
        query_per_page = None \<rparr>)
   = Reply200 \<lparr> query = ''cat'',
        results = [\<lparr> id' = JNum 7, title = JStr ''File:Cat.jpg'',
                     thumbnail = JStr ''https://t/Cat.jpg'', contentUrl = JNull,
                     hostPage = JStr ''https://commons.wikimedia.org/wiki/File:Cat.jpg'',
                     width = JNull, height = JNull, description = [] \<rparr>],
        page = Fin 1, per_page = Fin 24, count = 1 \<rparr>
   \<and> truthy (JStr ''https://t/Cat.jpg'')"
proof -
  let ?fetch = "\<lambda>u :: string. (Inr \<lparr> status = 200, json_body = Inr
         (JObj [(''query'', JObj [(''pages'', JObj
            [(''7'', JObj [(''pageid'', JNum 7), (''title'', JStr ''File:Cat.jpg''),
                          (''fullurl'', JStr ''https://commons.wikimedia.org/wiki/File:Cat.jpg''),
                          (''thumbnail'', JObj [(''source'', JStr ''https://t/Cat.jpg'')])]),
             (''9'', JObj [(''pageid'', JNum 9), (''title'', JStr ''Cat''),
                          (''fullurl'', JStr ''https://commons.wikimedia.org/wiki/Cat'')])])])]) \<rparr>
         :: error + upstream_response)"
  let ?req = "\<lparr> query_q = Some ''cat'', query_safe = Some ''Off'', query_page = None,
        query_per_page = None \<rparr>"
  let ?r = "\<lparr> id' = JNum 7, title = JStr ''File:Cat.jpg'',
                     thumbnail = JStr ''https://t/Cat.jpg'', contentUrl = JNull,
                     hostPage = JStr ''https://commons.wikimedia.org/wiki/File:Cat.jpg'',
                     width = JNull, height = JNull, description = [] \<rparr>"
  let ?resp = "\<lparr> query = ''cat'', results = [?r], page = Fin 1, per_page = Fin 24, count = 1 \<rparr>"
  have run: "reply (handler ?fetch ?req) = Reply200 ?resp"
    by (simp add: eval_search eval_request eval_parse eval_string eval_normalize eval_filter)
  have mem: "?r \<in> set (results ?resp)"
    by simp
  from results_have_image [OF run mem] run show ?thesis
    by simp
qed

section \<open>The normalizer: fields\<close>

text \<open>
  C9, as the code has it. Width and height are written as \<open>ii?.width || null\<close>: each
  is the field of the first image-info element when that field is truthy, and \<open>null\<close>
  otherwise, that is when the element or the field is absent or \<open>null\<close>, and also when
  the field holds a falsy value such as 0. Wherever the field is truthy or not present,
  this is the field copied when present, as the specification words it.
\<close>

theorem dimensions_from_first_imageinfo:
  assumes "normalize_page p = Inr r"
  shows "width r = (if truthy (imageinfo_field p ''width'') then imageinfo_field p ''width''
                    else JNull)
       \<and> height r = (if truthy (imageinfo_field p ''height'') then imageinfo_field p ''height''
                      else JNull)
       \<and> (truthy (imageinfo_field p ''width'') \<or> \<not> present (imageinfo_field p ''width'')
            \<longrightarrow> width r = spec_dimension p ''width'')
       \<and> (truthy (imageinfo_field p ''height'') \<or> \<not> present (imageinfo_field p ''height'')
            \<longrightarrow> height r = spec_dimension p ''height'')"
  using normalize_page_fields(1,2) [OF assms]
  by (auto simp: js_or_def spec_dimension_def dest: truthy_present)

theorem dimensions_from_first_imageinfo_witness:
  "normalize_page (JObj [(''pageid'', JNum 7), (''title'', JStr ''File:Cat.jpg''),
                    (''fullurl'', JStr ''https://commons.wikimedia.org/wiki/File:Cat.jpg''),
                    (''imageinfo'', JArr [JObj [(''url'', JStr ''https://u/Cat.jpg''),
                       (''width'', JNum 640)]])])
   = Inr \<lparr> id' = JNum 7, title = JStr ''File:Cat.jpg'', thumbnail = JNull,
           contentUrl = JStr ''https://u/Cat.jpg'',
           hostPage = JStr ''https://commons.wikimedia.org/wiki/File:Cat.jpg'',
           width = JNum 640, height = JNull, description = [] \<rparr>
   \<and> imageinfo_field (JObj [(''pageid'', JNum 7), (''title'', JStr ''File:Cat.jpg''),
                    (''fullurl'', JStr ''https://commons.wikimedia.org/wiki/File:Cat.jpg''),
                    (''imageinfo'', JArr [JObj [(''url'', JStr ''https://u/Cat.jpg''),
                       (''width'', JNum 640)]])]) ''width'' = JNum 640
   \<and> imageinfo_field (JObj [(''pageid'', JNum 7), (''title'', JStr ''File:Cat.jpg''),
                    (''fullurl'', JStr ''https://commons.wikimedia.org/wiki/File:Cat.jpg''),
                    (''imageinfo'', JArr [JObj [(''url'', JStr ''https://u/Cat.jpg''),
                       (''width'', JNum 640)]])]) ''height'' = JUndefined"
proof -
  let ?p = "JObj [(''pageid'', JNum 7), (''title'', JStr ''File:Cat.jpg''),
                    (''fullurl'', JStr ''https://commons.wikimedia.org/wiki/File:Cat.jpg''),
                    (''imageinfo'', JArr [JObj [(''url'', JStr ''https://u/Cat.jpg''),
                       (''width'', JNum 640)]])]"
  let ?r = "\<lparr> id' = JNum 7, title = JStr ''File:Cat.jpg'', thumbnail = JNull,
           contentUrl = JStr ''https://u/Cat.jpg'',
           hostPage = JStr ''https://commons.wikimedia.org/wiki/File:Cat.jpg'',
           width = JNum 640, height = JNull, description = [] \<rparr>"
  have run: "normalize_page ?p = Inr ?r"
    by (simp add: eval_normalize opt_member_def js_or_def eval_string)
  have w: "imageinfo_field ?p ''width'' = JNum 640"
    and h: "imageinfo_field ?p ''height'' = JUndefined"
    by (simp_all add: imageinfo_field_def opt_member_def)
  from dimensions_from_first_imageinfo [OF run] run w h show ?thesis
    by simp
qed

text \<open>
  C9 as stated fails for a field that is present and falsy. An audio file comes with
  an image-info of width 0 and height 0: both fields are present, the specification's
  wording copies the 0, and the code gives \<open>null\<close>.
\<close>

theorem dimension_counterexample:
  "normalize_page (JObj [(''pageid'', JNum 5), (''title'', JStr ''File:Song.ogg''),
                    (''fullurl'', JStr ''https://commons.wikimedia.org/wiki/File:Song.ogg''),
                    (''imageinfo'', JArr [JObj [(''url'', JStr ''https://u/Song.ogg''),
                       (''width'', JNum 0), (''height'', JNum 0)]])])
   = Inr \<lparr> id' = JNum 5, title = JStr ''File:Song.ogg'', thumbnail = JNull,
           contentUrl = JStr ''https://u/Song.ogg'',
           hostPage = JStr ''https://commons.wikimedia.org/wiki/File:Song.ogg'',
           width = JNull, height = JNull, description = [] \<rparr>
   \<and> spec_dimension (JObj [(''pageid'', JNum 5), (''title'', JStr ''File:Song.ogg''),
                    (''fullurl'', JStr ''https://commons.wikimedia.org/wiki/File:Song.ogg''),
                    (''imageinfo'', JArr [JObj [(''url'', JStr ''https://u/Song.ogg''),
                       (''width'', JNum 0), (''height'', JNum 0)]])]) ''width''
     = JNum 0"
  by (simp add: eval_normalize opt_member_def js_or_def eval_string eval_spec)

text \<open>
  C8, as the code has it. The description is taken from the first truthy one of the
  first image-info's extended \<open>ImageDescription\<close> value and the page extract, and
  from the empty string when neither is truthy; a string is cleaned of its
  \<open><[^>]+>\<close> spans and trimmed, any other value gives the empty string. Where each of
  the two fields is truthy whenever it is present, this is the specification's
  wording. In every case the description holds no span of the form \<open><\<close>, one or more
  characters other than \<open>>\<close>, \<open>>\<close>, and neither starts nor ends with white space.
\<close>

theorem description_from_first_truthy:
  assumes "normalize_page p = Inr r"
  shows "description r
           = clean_description
               (if truthy (image_description p) then image_description p
                else if truthy (get p ''extract'') then get p ''extract''
                else JStr [])
       \<and> ((present (image_description p) \<longrightarrow> truthy (image_description p))
           \<and> (present (get p ''extract'') \<longrightarrow> truthy (get p ''extract''))
            \<longrightarrow> description r = spec_description p)
       \<and> \<not> (\<exists>pre body post. description r = pre @ CHR ''<'' # body @ CHR ''>'' # post
                \<and> body \<noteq> [] \<and> CHR ''>'' \<notin> set body)
       \<and> (description r = []
            \<or> (\<not> is_space (hd (description r)) \<and> \<not> is_space (last (description r))))"
proof -
  let ?chosen = "if truthy (image_description p) then image_description p
                 else if truthy (get p ''extract'') then get p ''extract'' else JStr []"
  have d: "description r = clean_description ?chosen"
    using normalize_page_fields(3) [OF assms] by (simp add: js_or_def)
  have spec: "description r = spec_description p"
    if "present (image_description p) \<longrightarrow> truthy (image_description p)"
      and "present (get p ''extract'') \<longrightarrow> truthy (get p ''extract'')"
    using that d truthy_present [of "image_description p"] truthy_present [of "get p ''extract''"]
    by (auto simp: spec_description_def clean_description_def trim_Nil)
  have notag: False
    if eq: "description r = pre @ CHR ''<'' # body @ CHR ''>'' # post"
      and body: "body \<noteq> []" "CHR ''>'' \<notin> set body" for pre body post
  proof (cases ?chosen)
    case (JStr s)
    with d have ds: "description r = trim (strip_tags s)"
      by (simp add: clean_description_def)
    from ds eq have t: "trim (strip_tags s) = pre @ CHR ''<'' # body @ CHR ''>'' # post"
      by simp
    from trim_part [of "strip_tags s"] obtain a b where
      "strip_tags s = a @ trim (strip_tags s) @ b" by blast
    then have "strip_tags s = (a @ pre) @ CHR ''<'' # body @ CHR ''>'' # (post @ b)"
      unfolding t by simp
    from strip_tags_no_tag [OF this body] show False .
  qed (use d eq in \<open>simp_all add: clean_description_def\<close>)
  have ends: "description r = []
              \<or> (\<not> is_space (hd (description r)) \<and> \<not> is_space (last (description r)))"
  proof (cases ?chosen)
    case (JStr s)
    with d have "description r = trim (strip_tags s)"
      by (simp add: clean_description_def)
    with trim_ends [of "strip_tags s"] show ?thesis by simp
  qed (use d in \<open>simp_all add: clean_description_def\<close>)
  from d spec notag ends show ?thesis by blast
qed

theorem description_from_first_truthy_witness:
  "normalize_page (JObj [(''pageid'', JNum 7), (''title'', JStr ''File:Cat.jpg''),
                    (''fullurl'', JStr ''https://commons.wikimedia.org/wiki/File:Cat.jpg''),
                    (''extract'', JStr ''A cat''),
                    (''imageinfo'', JArr [JObj [(''url'', JStr ''https://u/Cat.jpg''),
                       (''extmetadata'', JObj [(''ImageDescription'',
                          JObj [(''value'', JStr '' <p>A <b>grey</b> cat</p> '')])])]])])
   = Inr \<lparr> id' = JNum 7, title = JStr ''File:Cat.jpg'', thumbnail = JNull,
           contentUrl = JStr ''https://u/Cat.jpg'',
           hostPage = JStr ''https://commons.wikimedia.org/wiki/File:Cat.jpg'',
           width = JNull, height = JNull, description = ''A grey cat'' \<rparr>
   \<and> spec_description (JObj [(''pageid'', JNum 7), (''title'', JStr ''File:Cat.jpg''),
                    (''fullurl'', JStr ''https://commons.wikimedia.org/wiki/File:Cat.jpg''),
                    (''extract'', JStr ''A cat''),
                    (''imageinfo'', JArr [JObj [(''url'', JStr ''https://u/Cat.jpg''),
                       (''extmetadata'', JObj [(''ImageDescription'',
                          JObj [(''value'', JStr '' <p>A <b>grey</b> cat</p> '')])])]])])
     = ''A grey cat''"
proof -
  let ?p = "JObj [(''pageid'', JNum 7), (''title'', JStr ''File:Cat.jpg''),
                    (''fullurl'', JStr ''https://commons.wikimedia.org/wiki/File:Cat.jpg''),
                    (''extract'', JStr ''A cat''),
                    (''imageinfo'', JArr [JObj [(''url'', JStr ''https://u/Cat.jpg''),
                       (''extmetadata'', JObj [(''ImageDescription'',
                          JObj [(''value'', JStr '' <p>A <b>grey</b> cat</p> '')])])]])]"
  let ?r = "\<lparr> id' = JNum 7, title = JStr ''File:Cat.jpg'', thumbnail = JNull,
           contentUrl = JStr ''https://u/Cat.jpg'',
           hostPage = JStr ''https://commons.wikimedia.org/wiki/File:Cat.jpg'',
           width = JNull, height = JNull, description = ''A grey cat'' \<rparr>"
  have run: "normalize_page ?p = Inr ?r"
    by (simp add: eval_normalize opt_member_def js_or_def eval_string)
  have v: "image_description ?p = JStr '' <p>A <b>grey</b> cat</p> ''"
    and e: "get ?p ''extract'' = JStr ''A cat''"
    by (simp_all add: image_description_def imageinfo_field_def opt_member_def)
  have pres: "(present (image_description ?p) \<longrightarrow> truthy (image_description ?p))
              \<and> (present (get ?p ''extract'') \<longrightarrow> truthy (get ?p ''extract''))"
    unfolding v e by simp
  from description_from_first_truthy [OF run] have
    "(present (image_description ?p) \<longrightarrow> truthy (image_description ?p))
      \<and> (present (get ?p ''extract'') \<longrightarrow> truthy (get ?p ''extract''))
     \<longrightarrow> description ?r = spec_description ?p"
    by blast
  with pres have "description ?r = spec_description ?p"
    by blast
  then have "spec_description ?p = ''A grey cat''"
    by simp
  with run show ?thesis
    by blast
qed

text \<open>
  C8 as stated fails for a field that is present and falsy. With an
  \<open>ImageDescription\<close> value that is the empty string and a page extract \<open>A cat\<close>, the
  specification's wording gives the empty description of the value that is present;
  the code falls through to the extract.
\<close>

theorem description_counterexample:
  "normalize_page (JObj [(''pageid'', JNum 5), (''title'', JStr ''File:Cat.jpg''),
                    (''fullurl'', JStr ''https://commons.wikimedia.org/wiki/File:Cat.jpg''),
                    (''extract'', JStr ''A cat''),
                    (''imageinfo'', JArr [JObj [(''url'', JStr ''https://u/Cat.jpg''),
                       (''extmetadata'', JObj [(''ImageDescription'', JObj [(''value'', JStr [])])])]])])
   = Inr \<lparr> id' = JNum 5, title = JStr ''File:Cat.jpg'', thumbnail = JNull,
           contentUrl = JStr ''https://u/Cat.jpg'',
           hostPage = JStr ''https://commons.wikimedia.org/wiki/File:Cat.jpg'',
           width = JNull, height = JNull, description = ''A cat'' \<rparr>
   \<and> spec_description (JObj [(''pageid'', JNum 5), (''title'', JStr ''File:Cat.jpg''),
                    (''fullurl'', JStr ''https://commons.wikimedia.org/wiki/File:Cat.jpg''),
                    (''extract'', JStr ''A cat''),
                    (''imageinfo'', JArr [JObj [(''url'', JStr ''https://u/Cat.jpg''),
                       (''extmetadata'', JObj [(''ImageDescription'', JObj [(''value'', JStr [])])])]])])
     = []"
  by (simp add: eval_normalize opt_member_def js_or_def eval_string eval_spec)

section \<open>The normalizer: order of the results\<close>

text \<open>
  C2, as the code has it. The results are the records of the raw page mapping in the
  order \<open>Object.values\<close> lists them, normalized one by one and never re-sorted: result
  \<open>i\<close> comes from the \<open>i\<close>-th listed record. That order puts the records whose keys
  are array indices (page ids are) first, by ascending key, and then the other
  records in insertion order. It is the insertion order when no key is an array index,
  and when all keys are and were inserted in ascending order.
\<close>

theorem results_in_property_order:
  assumes "pages_of json = Inr (JObj kvs)"
  shows "normalize_pages json = map_results normalize_page (map snd (own_property_order kvs))
       \<and> (\<forall>rs. normalize_pages json = Inr rs \<longrightarrow>
             length rs = length kvs
             \<and> (\<forall>i<length kvs. normalize_page (snd (own_property_order kvs ! i)) = Inr (rs ! i)))
       \<and> own_property_order kvs
           = filter (\<lambda>kv. is_array_index (fst kv)) (own_property_order kvs)
             @ filter (\<lambda>kv. \<not> is_array_index (fst kv)) kvs
       \<and> sorted (map (\<lambda>kv. digits_value (fst kv))
                   (filter (\<lambda>kv. is_array_index (fst kv)) (own_property_order kvs)))
       \<and> (list_all (\<lambda>kv. \<not> is_array_index (fst kv)) kvs
            \<or> (list_all (\<lambda>kv. is_array_index (fst kv)) kvs
                \<and> sorted (map (\<lambda>kv. digits_value (fst kv)) kvs))
           \<longrightarrow> normalize_pages json = map_results normalize_page (insertion_order kvs))"
proof -
  have a: "normalize_pages json = map_results normalize_page (map snd (own_property_order kvs))"
    using assms by (simp add: normalize_pages_def)
  have b: "length rs = length kvs
           \<and> (\<forall>i<length kvs. normalize_page (snd (own_property_order kvs ! i)) = Inr (rs ! i))"
    if "normalize_pages json = Inr rs" for rs
  proof -
    from that a have "map_results normalize_page (map snd (own_property_order kvs)) = Inr rs"
      by simp
    from map_results_nth [OF this] show ?thesis
      by (simp add: own_property_order_length)
  qed
  have c: "own_property_order kvs
           = filter (\<lambda>kv. is_array_index (fst kv)) (own_property_order kvs)
             @ filter (\<lambda>kv. \<not> is_array_index (fst kv)) kvs"
    unfolding own_property_order_index_part by (simp add: own_property_order_def)
  have d: "sorted (map (\<lambda>kv. digits_value (fst kv))
                   (filter (\<lambda>kv. is_array_index (fst kv)) (own_property_order kvs)))"
    unfolding own_property_order_index_part by (rule sorted_sort_key)
  have e: "normalize_pages json = map_results normalize_page (insertion_order kvs)"
    if "list_all (\<lambda>kv. \<not> is_array_index (fst kv)) kvs
        \<or> (list_all (\<lambda>kv. is_array_index (fst kv)) kvs
            \<and> sorted (map (\<lambda>kv. digits_value (fst kv)) kvs))"
  proof -
    from that have "own_property_order kvs = kvs"
      using own_property_order_no_index own_property_order_ascending by blast
    with a show ?thesis
      by (simp add: insertion_order_def)
  qed
  from a b c d e show ?thesis by blast
qed

text \<open>A mapping keyed 3 and 20, in this order, comes out in its insertion order.\<close>

theorem results_in_property_order_witness:
  "normalize_pages
     (JObj [(''query'', JObj [(''pages'', JObj
        [(''3'', JObj [(''pageid'', JNum 3), (''title'', JStr ''File:A.jpg''),
                      (''fullurl'', JStr ''https://commons.wikimedia.org/wiki/File:A.jpg'')]),
         (''20'', JObj [(''pageid'', JNum 20), (''title'', JStr ''File:B.jpg''),
                       (''fullurl'', JStr ''https://commons.wikimedia.org/wiki/File:B.jpg'')])])])])
   = Inr [\<lparr> id' = JNum 3, title = JStr ''File:A.jpg'', thumbnail = JNull, contentUrl = JNull,
             hostPage = JStr ''https://commons.wikimedia.org/wiki/File:A.jpg'',
             width = JNull, height = JNull, description = [] \<rparr>,
          \<lparr> id' = JNum 20, title = JStr ''File:B.jpg'', thumbnail = JNull, contentUrl = JNull,
             hostPage = JStr ''https://commons.wikimedia.org/wiki/File:B.jpg'',
             width = JNull, height = JNull, description = [] \<rparr>]"
proof -
  let ?a = "JObj [(''pageid'', JNum 3), (''title'', JStr ''File:A.jpg''),
                  (''fullurl'', JStr ''https://commons.wikimedia.org/wiki/File:A.jpg'')]"
  let ?b = "JObj [(''pageid'', JNum 20), (''title'', JStr ''File:B.jpg''),
                  (''fullurl'', JStr ''https://commons.wikimedia.org/wiki/File:B.jpg'')]"
  let ?kvs = "[(''3'', ?a), (''20'', ?b)]"
  let ?json = "JObj [(''query'', JObj [(''pages'', JObj ?kvs)])]"
  have pages: "pages_of ?json = Inr (JObj ?kvs)"
    by (simp add: pages_of_def member_of_def opt_member_def js_or_def)
  have idx: "list_all (\<lambda>kv. is_array_index (fst kv)) ?kvs"
    by (simp add: is_array_index_def is_digit_def digits_value_def code_unit_def)
  have asc: "sorted (map (\<lambda>kv. digits_value (fst kv)) ?kvs)"
    by (simp add: digits_value_def code_unit_def)
  from results_in_property_order [OF pages] idx asc
  have "normalize_pages ?json = map_results normalize_page (insertion_order ?kvs)"
    by blast
  then show ?thesis
    by (simp add: insertion_order_def eval_normalize eval_string opt_member_def js_or_def)
qed

text \<open>
  C2 as stated fails for page ids that are not inserted in ascending order. The raw
  mapping holds page 20 and then page 3; the results hold page 3 and then page 20,
  while the insertion order would give page 20 first.
\<close>

theorem insertion_order_counterexample:
  "normalize_pages
     (JObj [(''query'', JObj [(''pages'', JObj
        [(''20'', JObj [(''pageid'', JNum 20), (''title'', JStr ''File:B.jpg''),
                       (''fullurl'', JStr ''https://commons.wikimedia.org/wiki/File:B.jpg'')]),
         (''3'', JObj [(''pageid'', JNum 3), (''title'', JStr ''File:A.jpg''),
                      (''fullurl'', JStr ''https://commons.wikimedia.org/wiki/File:A.jpg'')])])])])
   = Inr [\<lparr> id' = JNum 3, title = JStr ''File:A.jpg'', thumbnail = JNull, contentUrl = JNull,
             hostPage = JStr ''https://commons.wikimedia.org/wiki/File:A.jpg'',
             width = JNull, height = JNull, description = [] \<rparr>,
          \<lparr> id' = JNum 20, title = JStr ''File:B.jpg'', thumbnail = JNull, contentUrl = JNull,
             hostPage = JStr ''https://commons.wikimedia.org/wiki/File:B.jpg'',
             width = JNull, height = JNull, description = [] \<rparr>]
   \<and> map_results normalize_page (insertion_order
        [(''20'', JObj [(''pageid'', JNum 20), (''title'', JStr ''File:B.jpg''),
                       (''fullurl'', JStr ''https://commons.wikimedia.org/wiki/File:B.jpg'')]),
         (''3'', JObj [(''pageid'', JNum 3), (''title'', JStr ''File:A.jpg''),
                      (''fullurl'', JStr ''https://commons.wikimedia.org/wiki/File:A.jpg'')])])
   = Inr [\<lparr> id' = JNum 20, title = JStr ''File:B.jpg'', thumbnail = JNull, contentUrl = JNull,
             hostPage = JStr ''https://commons.wikimedia.org/wiki/File:B.jpg'',
             width = JNull, height = JNull, description = [] \<rparr>,
          \<lparr> id' = JNum 3, title = JStr ''File:A.jpg'', thumbnail = JNull, contentUrl = JNull,
             hostPage = JStr ''https://commons.wikimedia.org/wiki/File:A.jpg'',
             width = JNull, height = JNull, description = [] \<rparr>]"
  by (simp add: eval_search eval_normalize eval_string insertion_order_def)

end
